theory Spec2Isabelle
  imports
    Complex_Main
    "HOL-Library.AList"
    "HOL-Library.List_Lexorder"
    "HOL-Library.Char_ord"
    "HOL-Library.Product_Lexorder"
begin

section \<open>Python strings and paths\<close>

text \<open>
  Python \<open>str\<close> values are modelled as \<^typ>\<open>string\<close>; text outside ASCII is written as
  its UTF-8 bytes. The functions of this section are the ones of the Python standard
  library that the program calls on strings: \<open>str.startswith\<close>, \<open>str.endswith\<close>,
  \<open>str.join\<close>, \<open>str.strip\<close>, \<open>str.rfind\<close>, \<open>posixpath.splitext\<close> and
  \<open>posixpath.basename\<close>.
\<close>

type_synonym bytes = string

definition startswith :: "string \<Rightarrow> string \<Rightarrow> bool" where
  "startswith s p = (take (length p) s = p)"

definition endswith :: "string \<Rightarrow> string \<Rightarrow> bool" where
  "endswith s p = (length p \<le> length s \<and> drop (length s - length p) s = p)"

fun join :: "string \<Rightarrow> string list \<Rightarrow> string" where
  "join sep [] = []"
| "join sep [x] = x"
| "join sep (x # y # ys) = x @ sep @ join sep (y # ys)"

definition newline :: string where
  "newline = [CHR 0x0A]"

text \<open>The ASCII characters for which \<open>str.isspace\<close> holds: codes 9 to 13, 28 to 32.\<close>

definition isspace :: "char \<Rightarrow> bool" where
  "isspace c = (of_char c \<in> {9, 10, 11, 12, 13, 28, 29, 30, 31, 32 :: nat})"

definition strip :: "string \<Rightarrow> string" where
  "strip s = rev (dropWhile isspace (rev (dropWhile isspace s)))"

text \<open>\<open>p.rfind(c)\<close>: the index of the last occurrence of \<open>c\<close>, or \<open>-1\<close>.\<close>

definition rfind :: "string \<Rightarrow> char \<Rightarrow> int" where
  "rfind p c = (case filter (\<lambda>i. p ! i = c) (rev [0..<length p]) of
                  [] \<Rightarrow> - 1
                | i # _ \<Rightarrow> int i)"

text \<open>
  \<open>posixpath.splitext\<close>: the extension starts at the last dot of the last path
  component, unless only dots precede that dot in the component.
\<close>

definition splitext :: "string \<Rightarrow> string \<times> string" where
  "splitext p =
     (let sepIndex = rfind p CHR ''/'';
          dotIndex = rfind p CHR ''.''
      in if dotIndex > sepIndex \<and>
            list_ex (\<lambda>i. p ! i \<noteq> CHR ''.'') [nat (sepIndex + 1)..<nat dotIndex]
         then (take (nat dotIndex) p, drop (nat dotIndex) p)
         else (p, []))"

definition basename :: "string \<Rightarrow> string" where
  "basename p = drop (nat (rfind p CHR ''/'' + 1)) p"

definition path_join :: "string \<Rightarrow> string \<Rightarrow> string" where
  "path_join a b = (if a = ''.'' then b else a @ ''/'' @ b)"

definition parent :: "string \<Rightarrow> string" where
  "parent p = (if rfind p CHR ''/'' < 0 then ''.'' else take (nat (rfind p CHR ''/'')) p)"

fun str_nat :: "nat \<Rightarrow> string" where
  "str_nat n =
     (if n < 10 then [char_of (48 + n)] else str_nat (n div 10) @ [char_of (48 + n mod 10)])"

definition str_int :: "int \<Rightarrow> string" where
  "str_int i = (if i < 0 then CHR ''-'' # str_nat (nat (- i)) else str_nat (nat i))"

definition utf8 :: "nat list \<Rightarrow> string" where
  "utf8 bs = map char_of bs"

section \<open>The data model\<close>

text \<open>
  The chapter payload of the remote service and the chapters of \<open>ranobe.json\<close> are
  JSON objects; they are modelled with the fields the program reads. An attachment is
  the pair \<open>{url, filename}\<close>. Chapter content has three shapes: a \<open>str\<close> (raw HTML),
  a \<open>dict\<close> (kept with its \<open>type\<close> discriminator and its \<open>content\<close> array), and
  anything else. A node of the array carries its \<open>type\<close>, its inline \<open>content\<close>
  (absent is empty) and the identifiers \<open>attrs.images[*].image\<close> (an absent or empty
  identifier is the empty string: the program tests \<open>not img_name\<close>).
\<close>

record attachment =
  att_url :: string
  att_filename :: string

datatype inline = Inline (itype: string) (itext: string)

datatype node = Node (ntype: string) (ncontent: "inline list") (nimages: "string list")

datatype content = Html string | Dict string "node list" | Unknown

text \<open>A chapter of \<open>ranobe.json\<close>: \<open>id, volume, chapter, name, attachments, content\<close>.\<close>

record chapter_rec =
  ch_id :: int
  ch_volume :: string
  ch_chapter :: string
  ch_name :: string
  ch_attachments :: "attachment list"
  ch_content :: content

text \<open>
  \<open>ranobe.json\<close> itself. The program reads \<open>title\<close>, \<open>original_title\<close>,
  \<open>description\<close> and \<open>cover_image\<close> with \<open>dict.get\<close>, so they may be absent.
\<close>

record ranobe_data =
  rd_id :: string
  rd_title :: "string option"
  rd_original_title :: "string option"
  rd_description :: "string option"
  rd_cover_image :: "string option"
  rd_chapters :: "chapter_rec list"

text \<open>The chapter payload of the remote service (\<open>data\<close> of the chapter endpoint).\<close>

record chapter_data =
  cd_id :: int
  cd_volume :: string
  cd_number :: string
  cd_name :: string
  cd_attachments :: "attachment list"
  cd_content :: content

text \<open>An entry of the chapter list endpoint, and the stub \<open>get_chapters_list\<close> makes of it.\<close>

record chapter_entry =
  ce_volume :: string
  ce_number :: string
  ce_name :: string
  ce_id :: int

record chapter_stub =
  stub_tom :: int
  stub_chapter :: rat
  stub_name :: string
  stub_id :: int

record book_info =
  rus_name :: "string option"
  info_name :: "string option"
  summary :: "string option"

text \<open>A parsed HTML document (\<open>BeautifulSoup\<close>): text and tags with their attributes.\<close>

datatype soup = Text string | Tag string "(string \<times> string) list" "soup list"

text \<open>Exceptions. \<open>No_book_id\<close> and \<open>No_book_info\<close> are the two \<open>ValueError\<close>s the
  program raises itself; the others are raised by the library calls it makes.\<close>

datatype error =
    No_book_id
  | No_book_info
  | ValueError
  | TypeError
  | KeyError
  | FileNotFoundError
  | OSError
  | RequestException
  | JSONDecodeError

datatype log =
    No_attachment string
  | File_not_found string
  | Compress_failed string
  | Cover_failed error
  | Epub_created string
  | Chapter_status nat nat nat
  | Chapter_error
  | Image_status string nat nat nat
  | Image_error string
  | Chapters_found nat
  | Skip_chapter string string
  | Saved string

datatype response = Response nat bytes | Request_failed

text \<open>
  What the program does not define itself is a parameter: the remote service
  (\<open>server n u\<close> answers the request number \<open>n\<close> of the run, made to \<open>u\<close>), the file
  system's permissions, and the library functions \<open>re.search\<close> (group 1 of the first
  match), \<open>urlparse(u).path\<close>, \<open>Path(u).suffix\<close>, \<open>int\<close>, \<open>float\<close> and \<open>str\<close> on
  floats, \<open>BeautifulSoup(html, "html.parser")\<close> and \<open>str(soup)\<close>, the JSON decoding
  of each endpoint's body read at \<open>data\<close> (\<open>None\<close> when \<open>r.json()\<close> or the access
  raises), \<open>json.dump\<close> and \<open>json.load\<close>, the imaging library (\<open>reencode raw q\<close> is
  the JPEG written at quality \<open>q\<close> for the file content \<open>raw\<close>, \<open>None\<close> when opening,
  converting or saving raises), and the fractions that the \<open>tqdm\<close> wrapper of the
  progress object reports when item \<open>i\<close> of \<open>n\<close> is requested. Python floats are
  modelled by their rational values; NaN and the infinities are left out.
\<close>

record env =
  server :: "nat \<Rightarrow> string \<Rightarrow> response"
  can_write :: "string \<Rightarrow> bool"
  can_mkdir :: "string \<Rightarrow> bool"
  re_search :: "string \<Rightarrow> string \<Rightarrow> string option"
  urlparse_path :: "string \<Rightarrow> string"
  path_suffix :: "string \<Rightarrow> string"
  py_int :: "string \<Rightarrow> int option"
  py_float :: "string \<Rightarrow> rat option"
  str_float :: "rat \<Rightarrow> string"
  parse_html :: "string \<Rightarrow> soup list"
  render_html :: "soup list \<Rightarrow> string"
  json_book_info :: "bytes \<Rightarrow> book_info option option"
  json_cover :: "bytes \<Rightarrow> string option option"
  json_chapters :: "bytes \<Rightarrow> chapter_entry list option"
  json_chapter :: "bytes \<Rightarrow> chapter_data option option"
  json_dump :: "ranobe_data \<Rightarrow> bytes"
  json_load :: "bytes \<Rightarrow> ranobe_data option"
  reencode :: "bytes \<Rightarrow> nat \<Rightarrow> bytes option"
  tqdm_fractions :: "nat \<Rightarrow> nat \<Rightarrow> rat list"

section \<open>Document assembly (\<open>create_epub.py\<close>)\<close>

subsection \<open>The book under construction\<close>

datatype item =
    Epub_item string string string bytes
  | Epub_html string string string
  | Epub_nav
  | Epub_ncx

datatype spine_entry = Spine_nav | Spine_page item

datatype toc_entry =
    Toc_page item
  | Toc_section string string "(string \<times> string \<times> string) list"

text \<open>
  The \<open>EpubCreator\<close> object: its fields, the fields of its \<open>EpubBook\<close> that the
  program sets, the paths handed to \<open>Image.open\<close> so far, and the log.
\<close>

record creator =
  ranobe_path :: string
  base_dir :: string
  image_quality :: nat
  image_cache :: "string \<rightharpoonup> bytes"
  creator_data :: ranobe_data
  book_identifier :: string
  book_title :: string
  book_language :: string
  book_items :: "item list"
  book_cover :: "(string \<times> bytes) option"
  book_toc :: "toc_entry list"
  book_spine :: "spine_entry list"
  opened :: "string list"
  logs :: "log list"

definition new_creator :: "string \<Rightarrow> nat \<Rightarrow> ranobe_data \<Rightarrow> creator" where
  "new_creator ranobe_json_path quality d =
     \<lparr>ranobe_path = ranobe_json_path, base_dir = parent ranobe_json_path,
      image_quality = quality, image_cache = Map.empty, creator_data = d,
      book_identifier = [], book_title = [], book_language = [],
      book_items = [], book_cover = None, book_toc = [], book_spine = [],
      opened = [], logs = []\<rparr>"

text \<open>\<open>EpubCreator(ranobe_json_path, image_quality)\<close>: the file must exist and parse.\<close>

definition EpubCreator :: "env \<Rightarrow> (string \<rightharpoonup> bytes) \<Rightarrow> string \<Rightarrow> nat \<Rightarrow> error + creator" where
  "EpubCreator env fs ranobe_json_path quality =
     (case fs ranobe_json_path of
        None \<Rightarrow> Inl FileNotFoundError
      | Some raw \<Rightarrow>
          (case json_load env raw of
             None \<Rightarrow> Inl JSONDecodeError
           | Some d \<Rightarrow> Inr (new_creator ranobe_json_path quality d)))"

definition add_item :: "item \<Rightarrow> creator \<Rightarrow> creator" where
  "add_item it st = st\<lparr>book_items := book_items st @ [it]\<rparr>"

definition warn :: "log \<Rightarrow> creator \<Rightarrow> creator" where
  "warn l st = st\<lparr>logs := logs st @ [l]\<rparr>"

subsection \<open>\<open>_compress_image\<close>\<close>

text \<open>
  A cached path is answered from the cache. Otherwise the image is opened; when the
  library re-encodes it the result is cached and returned; when it raises, the warning
  is logged and \<open>img_path.read_bytes()\<close> is returned, which raises for a missing file.
\<close>

definition compress_image ::
  "env \<Rightarrow> (string \<rightharpoonup> bytes) \<Rightarrow> creator \<Rightarrow> string \<Rightarrow> (error + bytes) \<times> creator" where
  "compress_image env fs st img_path =
     (case image_cache st img_path of
        Some cached \<Rightarrow> (Inr cached, st)
      | None \<Rightarrow>
          (let st1 = st\<lparr>opened := opened st @ [img_path]\<rparr>
           in case (case fs img_path of None \<Rightarrow> None
                    | Some raw \<Rightarrow> reencode env raw (image_quality st)) of
                Some data \<Rightarrow>
                  (Inr data, st1\<lparr>image_cache := (image_cache st1)(img_path \<mapsto> data)\<rparr>)
              | None \<Rightarrow>
                  (let st2 = warn (Compress_failed img_path) st1
                   in case fs img_path of
                        Some raw \<Rightarrow> (Inr raw, st2)
                      | None \<Rightarrow> (Inl FileNotFoundError, st2))))"

subsection \<open>\<open>_doc_to_html\<close>\<close>

definition img_tag :: "string \<Rightarrow> string" where
  \<open>img_tag fname = ''<img src="imgs/'' @ fname @ ''"/>''\<close>

definition p_tag :: "string \<Rightarrow> string" where
  "p_tag paragraph_text = ''<p>'' @ paragraph_text @ ''</p>''"

text \<open>
  The dictionary \<open>name_map\<close>: for each attachment in turn, the file name without its
  extension is mapped to the file name; a later attachment overwrites an earlier one.
\<close>

definition name_map :: "attachment list \<Rightarrow> (string \<rightharpoonup> string)" where
  "name_map attachments =
     fold (\<lambda>att m. m(fst (splitext (att_filename att)) \<mapsto> att_filename att))
       attachments Map.empty"

definition paragraph_text :: "inline list \<Rightarrow> string" where
  "paragraph_text inls = concat (map itext (filter (\<lambda>i. itype i = ''text'') inls))"

text \<open>One identifier of an image node: the HTML parts and the warnings it adds.\<close>

definition image_html :: "(string \<rightharpoonup> string) \<Rightarrow> string \<Rightarrow> string list \<times> log list" where
  "image_html nm img_name =
     (if img_name = [] then ([], [])
      else case nm img_name of
             Some fname \<Rightarrow>
               if fname \<noteq> [] then ([img_tag fname], []) else ([], [No_attachment img_name])
           | None \<Rightarrow> ([], [No_attachment img_name]))"

definition node_html :: "(string \<rightharpoonup> string) \<Rightarrow> node \<Rightarrow> string list \<times> log list" where
  "node_html nm nd =
     (if ntype nd = ''paragraph'' then
        (let t = paragraph_text (ncontent nd)
         in if strip t \<noteq> [] then ([p_tag t], []) else ([], []))
      else if ntype nd = ''image'' then
        (concat (map (\<lambda>i. fst (image_html nm i)) (nimages nd)),
         concat (map (\<lambda>i. snd (image_html nm i)) (nimages nd)))
      else ([], []))"

definition html_parts :: "node list \<Rightarrow> attachment list \<Rightarrow> string list" where
  "html_parts content_arr attachments =
     concat (map (\<lambda>nd. fst (node_html (name_map attachments) nd)) content_arr)"

definition doc_to_html :: "string \<Rightarrow> node list \<Rightarrow> attachment list \<Rightarrow> string \<times> log list" where
  "doc_to_html ty content_arr attachments =
     (if ty \<noteq> ''doc'' then ([], [])
      else (join newline (html_parts content_arr attachments),
            concat (map (\<lambda>nd. snd (node_html (name_map attachments) nd)) content_arr)))"

text \<open>
  The reading of ``every \<open><img>\<close> tag of the HTML references a file name of the
  attachment list'' on the produced string: wherever \<open><img\<close> starts in the string, the
  tag of some attachment's file name starts there.
\<close>

definition every_img_tag_resolves :: "string \<Rightarrow> attachment list \<Rightarrow> bool" where
  "every_img_tag_resolves html attachments =
     list_all (\<lambda>i. take 4 (drop i html) = ''<img'' \<longrightarrow>
                 list_ex (\<lambda>att. startswith (drop i html) (img_tag (att_filename att))) attachments)
       [0..<length html]"

subsection \<open>\<open>_process_chapter_content\<close>\<close>

text \<open>
  One \<open><img>\<close> tag of the chapter: a \<open>src\<close> under \<open>imgs/\<close> whose file exists is
  compressed, added to the book as an item and rewritten to \<open>images/\<close>.
\<close>

definition rewrite_img ::
  "env \<Rightarrow> (string \<rightharpoonup> bytes) \<Rightarrow> creator \<Rightarrow> (string \<times> string) list
     \<Rightarrow> error + (string \<times> string) list \<times> creator" where
  "rewrite_img env fs st tag_attrs =
     (case map_of tag_attrs ''src'' of
        None \<Rightarrow> Inr (tag_attrs, st)
      | Some old_src \<Rightarrow>
          if old_src = [] then Inr (tag_attrs, st)
          else if startswith old_src ''imgs/'' then
            (let local_file = path_join (base_dir st) old_src
             in if fs local_file \<noteq> None then
                  (case compress_image env fs st local_file of
                     (Inl e, st1) \<Rightarrow> Inl e
                   | (Inr new_data, st1) \<Rightarrow>
                       (let new_filename = ''images/'' @ basename local_file;
                            it = Epub_item (''img_'' @ basename old_src) new_filename
                                   ''image/jpeg'' new_data
                        in Inr (AList.update ''src'' new_filename tag_attrs, add_item it st1)))
                else Inr (tag_attrs, warn (File_not_found local_file) st))
          else Inr (tag_attrs, st))"

text \<open>The loop over \<open>soup.find_all("img")\<close>: every \<open>img\<close> tag, in document order.\<close>

fun rewrite_imgs :: "env \<Rightarrow> (string \<rightharpoonup> bytes) \<Rightarrow> creator \<Rightarrow> soup \<Rightarrow> error + soup \<times> creator"
  and rewrite_imgs_list ::
    "env \<Rightarrow> (string \<rightharpoonup> bytes) \<Rightarrow> creator \<Rightarrow> soup list \<Rightarrow> error + soup list \<times> creator" where
  "rewrite_imgs env fs st (Text t) = Inr (Text t, st)"
| "rewrite_imgs env fs st (Tag nm tag_attrs kids) =
     (case (if nm = ''img'' then rewrite_img env fs st tag_attrs else Inr (tag_attrs, st)) of
        Inl e \<Rightarrow> Inl e
      | Inr (attrs1, st1) \<Rightarrow>
          (case rewrite_imgs_list env fs st1 kids of
             Inl e \<Rightarrow> Inl e
           | Inr (kids1, st2) \<Rightarrow> Inr (Tag nm attrs1 kids1, st2)))"
| "rewrite_imgs_list env fs st [] = Inr ([], st)"
| "rewrite_imgs_list env fs st (x # xs) =
     (case rewrite_imgs env fs st x of
        Inl e \<Rightarrow> Inl e
      | Inr (x1, st1) \<Rightarrow>
          (case rewrite_imgs_list env fs st1 xs of
             Inl e \<Rightarrow> Inl e
           | Inr (xs1, st2) \<Rightarrow> Inr (x1 # xs1, st2)))"

definition process_chapter_content ::
  "env \<Rightarrow> (string \<rightharpoonup> bytes) \<Rightarrow> creator \<Rightarrow> content \<Rightarrow> attachment list
     \<Rightarrow> error + string \<times> creator" where
  "process_chapter_content env fs st cont attachments =
     (let go = (\<lambda>raw_html st0.
            case rewrite_imgs_list env fs st0 (parse_html env raw_html) of
              Inl e \<Rightarrow> Inl e
            | Inr (sp, st1) \<Rightarrow> Inr (render_html env sp, st1))
      in case cont of
           Html s \<Rightarrow> go s st
         | Dict ty content_arr \<Rightarrow>
             if ty = ''doc'' then
               (let (raw_html, ws) = doc_to_html ty content_arr attachments
                in go raw_html (st\<lparr>logs := logs st @ ws\<rparr>))
             else Inr ([], st)
         | Unknown \<Rightarrow> Inr ([], st))"

subsection \<open>\<open>_make_title_page\<close> and \<open>_create_style\<close>\<close>

definition untitled :: string where
  "untitled = utf8 [0xD0, 0x91, 0xD0, 0xB5, 0xD0, 0xB7, 0x20, 0xD0, 0xBD, 0xD0, 0xB0, 0xD0,
                    0xB7, 0xD0, 0xB2, 0xD0, 0xB0, 0xD0, 0xBD, 0xD0, 0xB8, 0xD1, 0x8F]"

definition ru_tom :: string where
  "ru_tom = utf8 [0xD0, 0xA2, 0xD0, 0xBE, 0xD0, 0xBC, 0x20]"

definition ru_glava :: string where
  "ru_glava = utf8 [0xD0, 0x93, 0xD0, 0xBB, 0xD0, 0xB0, 0xD0, 0xB2, 0xD0, 0xB0, 0x20]"

definition ru_opisanie :: string where
  "ru_opisanie = utf8 [0xD0, 0x9E, 0xD0, 0xBF, 0xD0, 0xB8, 0xD1, 0x81, 0xD0, 0xB0, 0xD0,
                       0xBD, 0xD0, 0xB8, 0xD0, 0xB5]"

definition ru_dalee :: string where
  "ru_dalee = utf8 [0xD0, 0x94, 0xD0, 0xB0, 0xD0, 0xBB, 0xD0, 0xB5, 0xD0, 0xB5]"

definition ru_soderzhanie :: string where
  "ru_soderzhanie = utf8 [0xD0, 0xA1, 0xD0, 0xBE, 0xD0, 0xB4, 0xD0, 0xB5, 0xD1, 0x80, 0xD0,
                          0xB6, 0xD0, 0xB0, 0xD0, 0xBD, 0xD0, 0xB8, 0xD0, 0xB5]"

definition ru_hint :: string where
  "ru_hint = utf8 [0xD0, 0x98, 0xD1, 0x81, 0xD0, 0xBF, 0xD0, 0xBE, 0xD0, 0xBB, 0xD1, 0x8C,
                   0xD0, 0xB7, 0xD1, 0x83, 0xD0, 0xB9, 0xD1, 0x82, 0xD0, 0xB5, 0x20, 0xD0,
                   0xBE, 0xD0, 0xB3, 0xD0, 0xBB, 0xD0, 0xB0, 0xD0, 0xB2, 0xD0, 0xBB, 0xD0,
                   0xB5, 0xD0, 0xBD, 0xD0, 0xB8, 0xD0, 0xB5, 0x20, 0xD0, 0xB8, 0xD0, 0xBB,
                   0xD0, 0xB8, 0x20, 0xD0, 0xBA, 0xD0, 0xBD, 0xD0, 0xBE, 0xD0, 0xBF, 0xD0,
                   0xBA, 0xD1, 0x83]"

definition ru_title_page :: string where
  "ru_title_page = utf8 [0xD0, 0xA2, 0xD0, 0xB8, 0xD1, 0x82, 0xD1, 0x83, 0xD0, 0xBB, 0xD1,
                         0x8C, 0xD0, 0xBD, 0xD0, 0xB0, 0xD1, 0x8F, 0x20, 0xD1, 0x81, 0xD1,
                         0x82, 0xD1, 0x80, 0xD0, 0xB0, 0xD0, 0xBD, 0xD0, 0xB8, 0xD1, 0x86,
                         0xD0, 0xB0]"

text \<open>
  The link of the title page. \<open>sorted(volumes, key=lambda x: float(x))[0]\<close> stands in a
  \<open>try\<close> whose \<open>except\<close> keeps the link \<open>#\<close>: it raises when \<open>float\<close> rejects a label.
\<close>

definition volume_anchor :: "string \<Rightarrow> string" where
  "volume_anchor first_vol = ''volume_'' @ first_vol @ ''.xhtml#volume_'' @ first_vol"

definition title_link :: "env \<Rightarrow> chapter_rec list \<Rightarrow> string" where
  "title_link env chs =
     (let volumes = map ch_volume chs
      in if volumes = [] then ''#''
         else if list_all (\<lambda>x. py_float env x \<noteq> None) volumes then
           (case sort_key (\<lambda>x. the (py_float env x)) volumes of
              [] \<Rightarrow> ''#''
            | first_vol # _ \<Rightarrow> volume_anchor first_vol)
         else ''#'')"

definition title_html :: "string \<Rightarrow> string \<Rightarrow> string \<Rightarrow> string \<Rightarrow> string" where
  \<open>title_html title orig desc link = concat
     [newline,
      ''        <h1 style="text-align:center;">'', title, ''</h1>'', newline,
      ''        <h2 style="text-align:center;">'', orig, ''</h2>'', newline,
      ''        <h3>'', ru_opisanie, ''</h3>'', newline,
      ''        <p>'', desc, ''</p>'', newline,
      ''        <p style="text-align:center;">'', newline,
      ''          <a href="'', link, ''" style="font-size:1.2em;">'', ru_dalee,
          '' &raquo;</a>'', newline,
      ''        </p>'', newline,
      ''        <h3>'', ru_soderzhanie, ''</h3>'', newline,
      ''        <p>'', ru_hint, '' &laquo;'', ru_dalee, ''&raquo;.</p>'', newline,
      ''        '']\<close>

definition make_title_page :: "env \<Rightarrow> ranobe_data \<Rightarrow> item" where
  "make_title_page env d =
     (let title = (case rd_title d of None \<Rightarrow> untitled | Some t \<Rightarrow> t);
          orig = (case rd_original_title d of None \<Rightarrow> [] | Some t \<Rightarrow> t);
          desc = (case rd_description d of None \<Rightarrow> [] | Some t \<Rightarrow> t);
          link = title_link env (rd_chapters d)
      in Epub_html ru_title_page ''title_page.xhtml'' (title_html title orig desc link))"

definition main_css :: string where
  \<open>main_css = concat
     [newline,
      ''        @namespace epub "http://www.idpf.org/2007/ops";'', newline,
      ''        body {'', newline,
      ''            font-family: Arial, sans-serif;'', newline,
      ''            line-height: 1.6;'', newline,
      ''            margin: 0 auto;'', newline,
      ''            max-width: 800px;'', newline,
      ''        }'', newline,
      ''        h1, h2, h3 {'', newline,
      ''            text-align: center;'', newline,
      ''            margin: 1em 0;'', newline,
      ''        }'', newline,
      ''        p {'', newline,
      ''            margin: 0.5em 0;'', newline,
      ''            text-indent: 1.5em;'', newline,
      ''        }'', newline,
      ''        img {'', newline,
      ''            display: block;'', newline,
      ''            margin: 1em auto;'', newline,
      ''            max-width: 100%;'', newline,
      ''        }'', newline,
      ''        '']\<close>

definition create_style :: item where
  "create_style = Epub_item ''main_style'' ''style/main.css'' ''text/css'' main_css"

subsection \<open>\<open>create_epub\<close>\<close>

definition cover_html :: string where
  \<open>cover_html =
     ''<div style="text-align:center;"><img src="images/cover.jpg" alt="cover" /></div>''\<close>

text \<open>
  The cover: built when \<open>cover_image\<close> is set and the file exists. The page is added to
  the book and to the front of the spine before the image is compressed; an exception
  of the compression is caught and logged.
\<close>

definition add_cover ::
  "env \<Rightarrow> (string \<rightharpoonup> bytes) \<Rightarrow> creator \<Rightarrow> spine_entry list \<Rightarrow> spine_entry list \<times> creator" where
  "add_cover env fs st spine =
     (case rd_cover_image (creator_data st) of
        None \<Rightarrow> (spine, st)
      | Some cover_image \<Rightarrow>
          if cover_image = [] then (spine, st)
          else
            (let cover_fullpath = path_join (base_dir st) cover_image
             in if fs cover_fullpath \<noteq> None then
                  (let cover_page = Epub_html ''Cover'' ''cover.xhtml'' cover_html;
                       st1 = add_item cover_page st;
                       spine1 = Spine_page cover_page # spine
                   in case compress_image env fs st1 cover_fullpath of
                        (Inr cov_data, st2) \<Rightarrow>
                          (spine1, st2\<lparr>book_cover := Some (''images/cover.jpg'', cov_data)\<rparr>)
                      | (Inl e, st2) \<Rightarrow> (spine1, warn (Cover_failed e) st2))
                else (spine, st)))"

text \<open>
  \<open>volumes_map\<close>, a \<open>defaultdict(list)\<close>: the volume labels in the order of their first
  occurrence, each with its chapters in the order of the record.
\<close>

definition volumes_map :: "chapter_rec list \<Rightarrow> (string \<times> chapter_rec list) list" where
  "volumes_map chs =
     foldl (\<lambda>m ch. case map_of m (ch_volume ch) of
                      None \<Rightarrow> m @ [(ch_volume ch, [ch])]
                    | Some cs \<Rightarrow> AList.update (ch_volume ch) (cs @ [ch]) m)
       [] chs"

text \<open>
  \<open>_vol_key\<close> answers \<open>float(v)\<close>, or \<open>v\<close> itself when \<open>float\<close> raises. \<open>sorted\<close>
  compares the keys with \<open><\<close>: two floats by value, two strings lexically; comparing
  a float with a string raises \<open>TypeError\<close>, which a list holding both kinds of key
  cannot avoid. The sort is stable.
\<close>

datatype vol_key = Float_key rat | Str_key string

definition vol_key :: "env \<Rightarrow> string \<Rightarrow> vol_key" where
  "vol_key env v = (case py_float env v of Some f \<Rightarrow> Float_key f | None \<Rightarrow> Str_key v)"

fun is_float_key :: "vol_key \<Rightarrow> bool" where
  "is_float_key (Float_key f) = True"
| "is_float_key (Str_key s) = False"

fun float_of_key :: "vol_key \<Rightarrow> rat" where
  "float_of_key (Float_key f) = f"
| "float_of_key (Str_key s) = 0"

fun str_of_key :: "vol_key \<Rightarrow> string" where
  "str_of_key (Str_key s) = s"
| "str_of_key (Float_key f) = []"

definition sorted_vols :: "env \<Rightarrow> string list \<Rightarrow> error + string list" where
  "sorted_vols env vs =
     (if list_all (\<lambda>v. is_float_key (vol_key env v)) vs then
        Inr (sort_key (\<lambda>v. float_of_key (vol_key env v)) vs)
      else if list_all (\<lambda>v. \<not> is_float_key (vol_key env v)) vs then
        Inr (sort_key (\<lambda>v. str_of_key (vol_key env v)) vs)
      else Inl TypeError)"

text \<open>\<open>sorted(volumes_map[vol], key=lambda c: float(c["chapter"]))\<close>.\<close>

definition sorted_chapters :: "env \<Rightarrow> chapter_rec list \<Rightarrow> error + chapter_rec list" where
  "sorted_chapters env chs =
     (if list_all (\<lambda>c. py_float env (ch_chapter c) \<noteq> None) chs then
        Inr (sort_key (\<lambda>c. the (py_float env (ch_chapter c))) chs)
      else Inl ValueError)"

definition chapter_title :: "chapter_rec \<Rightarrow> string" where
  "chapter_title cinfo = ru_glava @ ch_chapter cinfo @ '' - '' @ ch_name cinfo"

definition chapter_anchor :: "chapter_rec \<Rightarrow> string" where
  "chapter_anchor cinfo = ''chapter_'' @ str_int (ch_id cinfo)"

text \<open>The loop over the chapters of one volume: the content parts and \<open>chapters_toc\<close>.\<close>

fun chapters_loop ::
  "env \<Rightarrow> (string \<rightharpoonup> bytes) \<Rightarrow> creator \<Rightarrow> chapter_rec list
     \<Rightarrow> error + (string list \<times> (string \<times> string) list) \<times> creator" where
  "chapters_loop env fs st [] = Inr (([], []), st)"
| "chapters_loop env fs st (cinfo # rest) =
     (case process_chapter_content env fs st (ch_content cinfo) (ch_attachments cinfo) of
        Inl e \<Rightarrow> Inl e
      | Inr (chapter_html, st1) \<Rightarrow>
          (case chapters_loop env fs st1 rest of
             Inl e \<Rightarrow> Inl e
           | Inr ((parts, chapters_toc), st2) \<Rightarrow>
               Inr (((''<h3 id=\"'' @ chapter_anchor cinfo @ ''\">'' @ chapter_title cinfo @ ''</h3>'')
                       # chapter_html # parts,
                     (chapter_anchor cinfo, chapter_title cinfo) # chapters_toc), st2)))"

text \<open>
  The loop over the sorted volume labels: \<open>volumes_for_toc\<close> (title, file name and
  \<open>chapters_toc\<close> of each volume) and the pages appended to the spine.
\<close>

fun volumes_loop ::
  "env \<Rightarrow> (string \<rightharpoonup> bytes) \<Rightarrow> (string \<times> chapter_rec list) list \<Rightarrow> creator \<Rightarrow> string list
     \<Rightarrow> error + ((string \<times> string \<times> (string \<times> string) list) list \<times> spine_entry list) \<times> creator"
  where
  "volumes_loop env fs vm st [] = Inr (([], []), st)"
| "volumes_loop env fs vm st (vol # rest) =
     (case sorted_chapters env (case map_of vm vol of Some cs \<Rightarrow> cs | None \<Rightarrow> []) of
        Inl e \<Rightarrow> Inl e
      | Inr chapters \<Rightarrow>
          (case chapters_loop env fs st chapters of
             Inl e \<Rightarrow> Inl e
           | Inr ((parts, chapters_toc), st1) \<Rightarrow>
               (let vol_title = ru_tom @ vol;
                    vol_filename = ''volume_'' @ vol @ ''.xhtml'';
                    vol_html = Epub_html vol_title vol_filename
                      (join newline
                         ((''<h2 id=\"volume_'' @ vol @ ''\">'' @ vol_title @ ''</h2>'') # parts))
                in case volumes_loop env fs vm (add_item vol_html st1) rest of
                     Inl e \<Rightarrow> Inl e
                   | Inr ((vols, spine), st2) \<Rightarrow>
                       Inr (((vol_title, vol_filename, chapters_toc) # vols,
                             Spine_page vol_html # spine), st2))))"

definition toc_section :: "string \<times> string \<times> (string \<times> string) list \<Rightarrow> toc_entry" where
  "toc_section v =
     (case v of (v_title, v_fname, chap_list) \<Rightarrow>
        Toc_section v_title v_fname
          (map (\<lambda>(anchor, ch_title). (v_fname @ ''#'' @ anchor, ch_title, ''chap_'' @ anchor))
             chap_list))"

text \<open>
  \<open>create_epub\<close> answers the path of the written file and the object with its book, or
  the exception that ends it. \<open>self.ranobe_data['title']\<close> raises \<open>KeyError\<close> for an
  absent title.
\<close>

definition create_epub :: "env \<Rightarrow> (string \<rightharpoonup> bytes) \<Rightarrow> creator \<Rightarrow> error + string \<times> creator" where
  "create_epub env fs st0 =
     (case rd_title (creator_data st0) of
        None \<Rightarrow> Inl KeyError
      | Some title \<Rightarrow>
          (let d = creator_data st0;
               st1 = st0\<lparr>book_identifier := ''ranobe_'' @ rd_id d, book_title := title,
                         book_language := ''ru''\<rparr>;
               st2 = add_item create_style st1;
               (spine1, st3) = add_cover env fs st2 [Spine_nav];
               title_page = make_title_page env d;
               st4 = add_item title_page st3;
               vm = volumes_map (rd_chapters d)
           in case sorted_vols env (map fst vm) of
                Inl e \<Rightarrow> Inl e
              | Inr svols \<Rightarrow>
                  (case volumes_loop env fs vm st4 svols of
                     Inl e \<Rightarrow> Inl e
                   | Inr ((volumes_for_toc, vol_spine), st5) \<Rightarrow>
                       (let st6 = st5\<lparr>book_toc := Toc_page title_page # map toc_section volumes_for_toc,
                                      book_spine := spine1 @ [Spine_page title_page] @ vol_spine\<rparr>;
                            st7 = add_item Epub_ncx (add_item Epub_nav st6);
                            out_path = path_join (base_dir st7) (title @ ''.epub'')
                        in if can_write env out_path
                           then Inr (out_path, warn (Epub_created out_path) st7)
                           else Inl OSError))))"

section \<open>Content acquisition (\<open>get_ranobe_content.py\<close>)\<close>

text \<open>
  The state of a run: the number of HTTP requests made so far, the requests and the
  pauses in their order, the files written, the log, and the fractions handed to the
  progress object.
\<close>

datatype event = Request string | Sleep nat

record world =
  clock :: nat
  trace :: "event list"
  files :: "string \<rightharpoonup> bytes"
  logged :: "log list"
  reported :: "rat list"

definition http_get :: "env \<Rightarrow> string \<Rightarrow> world \<Rightarrow> response \<times> world" where
  "http_get env u w = (server env (clock w) u, w\<lparr>clock := clock w + 1, trace := trace w @ [Request u]\<rparr>)"

definition sleep :: "nat \<Rightarrow> world \<Rightarrow> world" where
  "sleep t w = w\<lparr>trace := trace w @ [Sleep t]\<rparr>"

text \<open>The URLs requested and the pauses made, read off a trace.\<close>

definition requests :: "event list \<Rightarrow> string list" where
  "requests evs = concat (map (\<lambda>e. case e of Request u \<Rightarrow> [u] | Sleep t \<Rightarrow> []) evs)"

definition sleeps :: "event list \<Rightarrow> nat list" where
  "sleeps evs = concat (map (\<lambda>e. case e of Request u \<Rightarrow> [] | Sleep t \<Rightarrow> [t]) evs)"

text \<open>A response that is not a success: a status other than 200, or a transport error.\<close>

definition failed_response :: "response \<Rightarrow> bool" where
  "failed_response r = (case r of Response status_code body \<Rightarrow> status_code \<noteq> 200 | Request_failed \<Rightarrow> True)"

text \<open>
  The events of a retry loop in which no attempt returns: each attempt makes its
  request and, unless it is the last one allowed, pauses.
\<close>

definition retry_trace :: "string \<Rightarrow> nat \<Rightarrow> nat \<Rightarrow> nat list \<Rightarrow> event list" where
  "retry_trace u max_retries sleep_time attempts =
     concat (map (\<lambda>attempt. Request u # (if attempt < max_retries then [Sleep sleep_time] else []))
               attempts)"

definition logging :: "log \<Rightarrow> world \<Rightarrow> world" where
  "logging l w = w\<lparr>logged := logged w @ [l]\<rparr>"

definition progress :: "rat \<Rightarrow> world \<Rightarrow> world" where
  "progress fraction w = w\<lparr>reported := reported w @ [fraction]\<rparr>"

subsection \<open>\<open>extract_book_id\<close> and the single-request endpoints\<close>

definition backslash :: string where
  "backslash = [CHR 0x5C]"

definition patterns :: "string list" where
  "patterns =
     [''/ru/book/('' @ backslash @ ''d+--['' @ backslash @ ''w-]+)'',
      ''/ru/('' @ backslash @ ''d+--['' @ backslash @ ''w-]+)/'']"

fun first_match :: "env \<Rightarrow> string list \<Rightarrow> string \<Rightarrow> string option" where
  "first_match env [] u = None"
| "first_match env (pat # pats) u =
     (case re_search env pat u of Some g \<Rightarrow> Some g | None \<Rightarrow> first_match env pats u)"

definition extract_book_id :: "env \<Rightarrow> string \<Rightarrow> string option" where
  "extract_book_id env u = first_match env patterns u"

definition get_book_info :: "env \<Rightarrow> world \<Rightarrow> string \<Rightarrow> (error + book_info option) \<times> world" where
  "get_book_info env w book_id =
     (let api_url = ''https://api2.mangalib.me/api/manga/'' @ book_id @ ''?fields[]=summary'';
          (r, w1) = http_get env api_url w
      in case r of
           Request_failed \<Rightarrow> (Inl RequestException, w1)
         | Response status_code body \<Rightarrow>
             if status_code = 200 then
               (case json_book_info env body of
                  None \<Rightarrow> (Inl JSONDecodeError, w1)
                | Some info \<Rightarrow> (Inr info, w1))
             else (Inr None, w1))"

definition get_cover_url :: "env \<Rightarrow> world \<Rightarrow> string \<Rightarrow> (error + string option) \<times> world" where
  "get_cover_url env w book_id =
     (let api_url = ''https://api2.mangalib.me/api/manga/'' @ book_id;
          (r, w1) = http_get env api_url w
      in case r of
           Request_failed \<Rightarrow> (Inl RequestException, w1)
         | Response status_code body \<Rightarrow>
             if status_code = 200 then
               (case json_cover env body of
                  None \<Rightarrow> (Inl JSONDecodeError, w1)
                | Some c \<Rightarrow> (Inr c, w1))
             else (Inr None, w1))"

fun to_stubs :: "env \<Rightarrow> chapter_entry list \<Rightarrow> error + chapter_stub list" where
  "to_stubs env [] = Inr []"
| "to_stubs env (ch # rest) =
     (case py_int env (ce_volume ch) of
        None \<Rightarrow> Inl ValueError
      | Some t \<Rightarrow>
          (case py_float env (ce_number ch) of
             None \<Rightarrow> Inl ValueError
           | Some c \<Rightarrow>
               (case to_stubs env rest of
                  Inl e \<Rightarrow> Inl e
                | Inr stubs \<Rightarrow>
                    Inr (\<lparr>stub_tom = t, stub_chapter = c, stub_name = ce_name ch,
                          stub_id = ce_id ch\<rparr> # stubs))))"

definition get_chapters_list :: "env \<Rightarrow> world \<Rightarrow> string \<Rightarrow> (error + chapter_stub list) \<times> world" where
  "get_chapters_list env w book_id =
     (let api_url = ''https://api2.mangalib.me/api/manga/'' @ book_id @ ''/chapters'';
          (r, w1) = http_get env api_url w
      in case r of
           Request_failed \<Rightarrow> (Inl RequestException, w1)
         | Response status_code body \<Rightarrow>
             if status_code = 200 then
               (case json_chapters env body of
                  None \<Rightarrow> (Inl JSONDecodeError, w1)
                | Some entries \<Rightarrow>
                    (case to_stubs env entries of
                       Inl e \<Rightarrow> (Inl e, w1)
                     | Inr chapters \<Rightarrow>
                         (Inr (sort_key (\<lambda>x. (stub_tom x, stub_chapter x)) chapters), w1)))
             else (Inr [], w1))"

subsection \<open>\<open>get_chapter_data\<close>\<close>

text \<open>
  What one pass through the \<open>try\<close> of a retry loop ends in: the \<open>return\<close>, the
  warning for a status other than 200, or the \<open>except\<close> branch.
\<close>

datatype 'a attempt = Returned 'a | Bad_status nat | Raised

definition chapter_attempt :: "env \<Rightarrow> response \<Rightarrow> chapter_data option attempt" where
  "chapter_attempt env r =
     (case r of
        Request_failed \<Rightarrow> Raised
      | Response status_code body \<Rightarrow>
          if status_code = 200 then
            (case json_chapter env body of None \<Rightarrow> Raised | Some d \<Rightarrow> Returned d)
          else Bad_status status_code)"

text \<open>The loop \<open>for attempt in range(1, max_retries + 1)\<close>, over the attempts left.\<close>

fun chapter_attempts ::
  "env \<Rightarrow> string \<Rightarrow> nat \<Rightarrow> nat \<Rightarrow> world \<Rightarrow> nat list \<Rightarrow> chapter_data option \<times> world" where
  "chapter_attempts env api_url max_retries sleep_time w [] = (None, w)"
| "chapter_attempts env api_url max_retries sleep_time w (attempt # rest) =
     (let (r, w1) = http_get env api_url w
      in case chapter_attempt env r of
           Returned d \<Rightarrow> (d, w1)
         | Bad_status s \<Rightarrow>
             (let w2 = logging (Chapter_status s attempt max_retries) w1;
                  w3 = (if attempt < max_retries then sleep sleep_time w2 else w2)
              in chapter_attempts env api_url max_retries sleep_time w3 rest)
         | Raised \<Rightarrow>
             (let w2 = logging Chapter_error w1;
                  w3 = (if attempt < max_retries then sleep sleep_time w2 else w2)
              in chapter_attempts env api_url max_retries sleep_time w3 rest))"

definition chapter_url :: "string \<Rightarrow> string \<Rightarrow> string \<Rightarrow> string" where
  "chapter_url book_id volume chap =
     ''https://api2.mangalib.me/api/manga/'' @ book_id @ ''/chapter?number='' @
       (if endswith chap ''.0'' then takeWhile (\<lambda>c. c \<noteq> CHR ''.'') chap else chap) @
       ''&volume='' @ volume"

definition get_chapter_data ::
  "env \<Rightarrow> world \<Rightarrow> string \<Rightarrow> string \<Rightarrow> string \<Rightarrow> nat \<Rightarrow> nat \<Rightarrow> chapter_data option \<times> world" where
  "get_chapter_data env w book_id volume chap max_retries sleep_time =
     chapter_attempts env (chapter_url book_id volume chap) max_retries sleep_time w
       [1..<max_retries + 1]"

subsection \<open>\<open>download_image\<close>\<close>

definition image_url :: "string \<Rightarrow> string" where
  "image_url u = (if startswith u ''https://'' then u else ''https://ranobelib.me'' @ u)"

text \<open>
  One attempt: creating the directory and writing the file stand inside the \<open>try\<close>, so
  a path that cannot be written ends in the \<open>except\<close> branch.
\<close>

definition image_attempt :: "env \<Rightarrow> string \<Rightarrow> response \<Rightarrow> bytes attempt" where
  "image_attempt env save_path r =
     (case r of
        Request_failed \<Rightarrow> Raised
      | Response status_code body \<Rightarrow>
          if status_code = 200 then
            (if can_write env save_path then Returned body else Raised)
          else Bad_status status_code)"

fun image_attempts ::
  "env \<Rightarrow> string \<Rightarrow> string \<Rightarrow> nat \<Rightarrow> nat \<Rightarrow> world \<Rightarrow> nat list \<Rightarrow> bool \<times> world" where
  "image_attempts env u save_path max_retries sleep_time w [] = (False, w)"
| "image_attempts env u save_path max_retries sleep_time w (attempt # rest) =
     (let (r, w1) = http_get env (image_url u) w
      in case image_attempt env save_path r of
           Returned body \<Rightarrow> (True, w1\<lparr>files := (files w1)(save_path \<mapsto> body)\<rparr>)
         | Bad_status s \<Rightarrow>
             (let w2 = logging (Image_status u s attempt max_retries) w1;
                  w3 = (if attempt < max_retries then sleep sleep_time w2 else w2)
              in image_attempts env u save_path max_retries sleep_time w3 rest)
         | Raised \<Rightarrow>
             (let w2 = logging (Image_error u) w1;
                  w3 = (if attempt < max_retries then sleep sleep_time w2 else w2)
              in image_attempts env u save_path max_retries sleep_time w3 rest))"

definition download_image ::
  "env \<Rightarrow> world \<Rightarrow> string \<Rightarrow> string \<Rightarrow> nat \<Rightarrow> nat \<Rightarrow> bool \<times> world" where
  "download_image env w u save_path max_retries sleep_time =
     image_attempts env u save_path max_retries sleep_time w [1..<max_retries + 1]"

subsection \<open>\<open>fix_img_links_in_html\<close> and \<open>fix_img_links_in_doc\<close>\<close>

definition img_filename :: "env \<Rightarrow> string \<Rightarrow> string" where
  "img_filename env src_val =
     (let fname = basename (urlparse_path env src_val)
      in if fname = [] then ''img_unknown.jpg'' else fname)"

text \<open>
  The body of the loop over the \<open><img>\<close> tags, on the attributes of one tag: \<open>loading\<close>
  is deleted; a \<open>src\<close> that starts with \<open>http\<close> or \<open>/uploads/\<close> is downloaded (5
  attempts, pause 1) and, when the download succeeds, rewritten.
\<close>

definition fix_img_tag ::
  "env \<Rightarrow> string \<Rightarrow> world \<Rightarrow> (string \<times> string) list \<Rightarrow> (string \<times> string) list \<times> world" where
  "fix_img_tag env output_folder w tag_attrs =
     (let attrs1 = AList.delete ''loading'' tag_attrs
      in case map_of attrs1 ''src'' of
           None \<Rightarrow> (attrs1, w)
         | Some src_val \<Rightarrow>
             if src_val = [] then (attrs1, w)
             else if startswith src_val ''http'' \<or> startswith src_val ''/uploads/'' then
               (let fname = img_filename env src_val;
                    local_path = path_join (path_join output_folder ''imgs'') fname;
                    (ok, w1) = download_image env w src_val local_path 5 1
                in if ok then (AList.update ''src'' (''imgs/'' @ fname) attrs1, w1)
                   else (attrs1, w1))
             else (attrs1, w))"

fun fix_imgs :: "env \<Rightarrow> string \<Rightarrow> world \<Rightarrow> soup \<Rightarrow> soup \<times> world"
  and fix_imgs_list :: "env \<Rightarrow> string \<Rightarrow> world \<Rightarrow> soup list \<Rightarrow> soup list \<times> world" where
  "fix_imgs env output_folder w (Text t) = (Text t, w)"
| "fix_imgs env output_folder w (Tag nm tag_attrs kids) =
     (let (attrs1, w1) = (if nm = ''img'' then fix_img_tag env output_folder w tag_attrs
                          else (tag_attrs, w));
          (kids1, w2) = fix_imgs_list env output_folder w1 kids
      in (Tag nm attrs1 kids1, w2))"
| "fix_imgs_list env output_folder w [] = ([], w)"
| "fix_imgs_list env output_folder w (x # xs) =
     (let (x1, w1) = fix_imgs env output_folder w x;
          (xs1, w2) = fix_imgs_list env output_folder w1 xs
      in (x1 # xs1, w2))"

text \<open>\<open>soup.find_all("img")\<close>: the attributes of the \<open>img\<close> tags, in document order.\<close>

fun find_all_img :: "soup \<Rightarrow> (string \<times> string) list list"
  and find_all_img_list :: "soup list \<Rightarrow> (string \<times> string) list list" where
  "find_all_img (Text t) = []"
| "find_all_img (Tag nm tag_attrs kids) =
     (if nm = ''img'' then [tag_attrs] else []) @ find_all_img_list kids"
| "find_all_img_list [] = []"
| "find_all_img_list (x # xs) = find_all_img x @ find_all_img_list xs"

definition fix_img_links_in_html :: "env \<Rightarrow> world \<Rightarrow> string \<Rightarrow> string \<Rightarrow> string \<times> world" where
  "fix_img_links_in_html env w html_str output_folder =
     (let (sp, w1) = fix_imgs_list env output_folder w (parse_html env html_str)
      in (render_html env sp, w1))"

text \<open>The loop \<open>for att in attachments: download_image(att url, folder / filename)\<close>.\<close>

fun download_all :: "env \<Rightarrow> string \<Rightarrow> world \<Rightarrow> attachment list \<Rightarrow> world" where
  "download_all env folder w [] = w"
| "download_all env folder w (att # rest) =
     download_all env folder
       (snd (download_image env w (att_url att) (path_join folder (att_filename att)) 5 1)) rest"

definition fix_img_links_in_doc ::
  "env \<Rightarrow> world \<Rightarrow> content \<Rightarrow> string \<Rightarrow> attachment list \<Rightarrow> content \<times> world" where
  "fix_img_links_in_doc env w doc_data output_folder attachments =
     (doc_data, download_all env (path_join output_folder ''imgs'') w attachments)"

subsection \<open>\<open>get_ranobe_content\<close>\<close>

definition report :: "rat list \<Rightarrow> world \<Rightarrow> world" where
  "report fractions w = w\<lparr>reported := reported w @ fractions\<rparr>"

text \<open>The body of the chapter loop, for one stub of the chapter list.\<close>

definition normalize_content ::
  "env \<Rightarrow> world \<Rightarrow> content \<Rightarrow> string \<Rightarrow> attachment list \<Rightarrow> content \<times> world" where
  "normalize_content env w cont out_path attachments =
     (case cont of
        Html s \<Rightarrow>
          (let (new_html, w1) = fix_img_links_in_html env w s out_path in (Html new_html, w1))
      | Dict ty content_arr \<Rightarrow>
          if ty = ''doc'' then fix_img_links_in_doc env w cont out_path attachments
          else (cont, w)
      | Unknown \<Rightarrow> (cont, w))"

definition chapter_step ::
  "env \<Rightarrow> string \<Rightarrow> string \<Rightarrow> world \<times> chapter_rec list \<Rightarrow> chapter_stub
     \<Rightarrow> world \<times> chapter_rec list" where
  "chapter_step env book_id out_path acc ch =
     (let (w, all_chapters) = acc;
          tom = str_int (stub_tom ch);
          chap_str = str_float env (stub_chapter ch);
          (ch_data, w1) = get_chapter_data env w book_id tom chap_str 5 1
      in case ch_data of
           None \<Rightarrow> (logging (Skip_chapter tom chap_str) w1, all_chapters)
         | Some d \<Rightarrow>
             (let attachments = cd_attachments d;
                  (cont, w2) = normalize_content env w1 (cd_content d) out_path attachments;
                  w3 = download_all env (path_join out_path ''imgs'') w2 attachments;
                  chapter_rec = \<lparr>ch_id = cd_id d, ch_volume = cd_volume d,
                                 ch_chapter = cd_number d, ch_name = cd_name d,
                                 ch_attachments = attachments, ch_content = cont\<rparr>
              in (w3, all_chapters @ [chapter_rec])))"

text \<open>
  The loop \<open>for ch in progress.tqdm(chapters_list)\<close>: the wrapper reports when each
  item is requested, and once more when the list is exhausted.
\<close>

fun chapters_iter ::
  "env \<Rightarrow> string \<Rightarrow> string \<Rightarrow> nat \<Rightarrow> nat \<Rightarrow> world \<times> chapter_rec list \<Rightarrow> chapter_stub list
     \<Rightarrow> world \<times> chapter_rec list" where
  "chapters_iter env book_id out_path n i acc [] =
     (report (tqdm_fractions env i n) (fst acc), snd acc)"
| "chapters_iter env book_id out_path n i acc (ch # rest) =
     chapters_iter env book_id out_path n (i + 1)
       (chapter_step env book_id out_path (report (tqdm_fractions env i n) (fst acc), snd acc) ch)
       rest"

definition fetch_cover :: "env \<Rightarrow> world \<Rightarrow> string \<Rightarrow> string option \<Rightarrow> string option \<times> world" where
  "fetch_cover env w imgs_path cover_url =
     (case cover_url of
        None \<Rightarrow> (None, w)
      | Some cu \<Rightarrow>
          if cu = [] then (None, w)
          else
            (let cover_filename = ''cover'' @ path_suffix env cu;
                 (ok, w1) = download_image env w cu (path_join imgs_path cover_filename) 5 1
             in (if ok then Some (''imgs/'' @ cover_filename) else None, w1)))"

definition save_ranobe ::
  "env \<Rightarrow> world \<Rightarrow> string \<Rightarrow> string \<Rightarrow> book_info \<Rightarrow> string option \<Rightarrow> chapter_rec list
     \<Rightarrow> (error + string) \<times> world" where
  "save_ranobe env w out_path book_id info cover_local all_chapters =
     (let w1 = progress (19 / 20) w;
          d = \<lparr>rd_id = book_id,
               rd_title = Some (case rus_name info of None \<Rightarrow> untitled | Some t \<Rightarrow> t),
               rd_original_title = Some (case info_name info of None \<Rightarrow> [] | Some t \<Rightarrow> t),
               rd_description = Some (case summary info of None \<Rightarrow> [] | Some t \<Rightarrow> t),
               rd_cover_image = cover_local,
               rd_chapters = all_chapters\<rparr>;
          ranobe_json_path = path_join out_path ''ranobe.json''
      in if can_write env ranobe_json_path then
           (Inr ranobe_json_path,
            progress 1 (logging (Saved ranobe_json_path)
              (w1\<lparr>files := (files w1)(ranobe_json_path \<mapsto> json_dump env d)\<rparr>)))
         else (Inl OSError, w1))"

definition get_ranobe_content :: "env \<Rightarrow> world \<Rightarrow> string \<Rightarrow> string \<Rightarrow> (error + string) \<times> world" where
  "get_ranobe_content env w book_url output_dir =
     (let w1 = progress 0 w;
          out_path = output_dir;
          imgs_path = path_join out_path ''imgs''
      in if \<not> (can_mkdir env out_path \<and> can_mkdir env imgs_path) then (Inl OSError, w1)
         else
           (let w2 = progress (1 / 20) w1
            in case extract_book_id env book_url of
                 None \<Rightarrow> (Inl No_book_id, w2)
               | Some book_id \<Rightarrow>
                   if book_id = [] then (Inl No_book_id, w2)
                   else
                     (case get_book_info env w2 book_id of
                        (Inl e, w3) \<Rightarrow> (Inl e, w3)
                      | (Inr None, w3) \<Rightarrow> (Inl No_book_info, w3)
                      | (Inr (Some info), w3) \<Rightarrow>
                          (case get_cover_url env (progress (1 / 10) w3) book_id of
                             (Inl e, w5) \<Rightarrow> (Inl e, w5)
                           | (Inr cover_url, w5) \<Rightarrow>
                               (let (cover_local, w6) = fetch_cover env w5 imgs_path cover_url
                                in case get_chapters_list env (progress (3 / 20) w6) book_id of
                                     (Inl e, w8) \<Rightarrow> (Inl e, w8)
                                   | (Inr chapters_list, w8) \<Rightarrow>
                                       (let (w10, all_chapters) =
                                              chapters_iter env book_id out_path
                                                (length chapters_list) 0
                                                (logging (Chapters_found (length chapters_list)) w8, [])
                                                chapters_list
                                        in save_ranobe env w10 out_path book_id info cover_local
                                             all_chapters))))))"

text \<open>
  The fractions that \<open>get_ranobe_content\<close> reports when it runs to its end with a
  chapter list of \<open>n\<close> stubs: its milestones, with the reports of the wrapped loop
  between 0.15 and 0.95.
\<close>

definition full_run :: "env \<Rightarrow> nat \<Rightarrow> rat list" where
  "full_run env n =
     [0, 1 / 20, 1 / 10, 3 / 20]
       @ concat (map (\<lambda>k. tqdm_fractions env k n) [0..<n + 1]) @ [19 / 20, 1]"

section \<open>The pipeline (\<open>pipeline.py\<close>)\<close>

definition run_pipeline :: "env \<Rightarrow> world \<Rightarrow> string \<Rightarrow> string \<Rightarrow> (error + string) \<times> world" where
  "run_pipeline env w book_url output_dir =
     (let w1 = progress 0 w;
          w2 = progress (1 / 10) w1
      in case get_ranobe_content env w2 book_url output_dir of
           (Inl e, w3) \<Rightarrow> (Inl e, w3)
         | (Inr ranobe_json_path, w3) \<Rightarrow>
             (let w4 = progress (4 / 5) w3
              in case EpubCreator env (files w4) ranobe_json_path 85 of
                   Inl e \<Rightarrow> (Inl e, w4)
                 | Inr creator \<Rightarrow>
                     (case create_epub env (files w4) creator of
                        Inl e \<Rightarrow> (Inl e, w4)
                      | Inr (epub_path, st) \<Rightarrow> (Inr epub_path, progress 1 w4))))"

section \<open>A sample environment\<close>

text \<open>
  The environment of the examples below. The remote service answers every request with
  status 404, every path can be written, no URL holds a book identifier, and the
  imaging library rejects every file. \<open>float\<close> is given on the labels the examples
  use: a string of ASCII digits denotes its decimal value, and \<open>float\<close> rejects the
  label \<open>extra\<close>; \<open>str\<close> is given on floats that are whole numbers.
  \<open>urlparse\<close> is given on the one URL the examples use.
\<close>

definition float_digits :: "string \<Rightarrow> rat option" where
  "float_digits s =
     (if s \<noteq> [] \<and> list_all (\<lambda>c. CHR ''0'' \<le> c \<and> c \<le> CHR ''9'') s
      then Some (of_nat (foldl (\<lambda>a c. 10 * a + (of_char c - 48)) 0 s))
      else None)"

definition env0 :: env where
  "env0 =
     \<lparr>server = (\<lambda>n u. Response 404 []),
      can_write = (\<lambda>p. True),
      can_mkdir = (\<lambda>p. True),
      re_search = (\<lambda>pat u. None),
      urlparse_path = (\<lambda>u. if u = ''https://host/x/y.png'' then ''/x/y.png'' else u),
      path_suffix = (\<lambda>u. []),
      py_int = (\<lambda>s. None),
      py_float = float_digits,
      str_float = (\<lambda>r. str_int \<lfloor>r\<rfloor> @ ''.0''),
      parse_html = (\<lambda>s. []),
      render_html = (\<lambda>sp. []),
      json_book_info = (\<lambda>b. None),
      json_cover = (\<lambda>b. None),
      json_chapters = (\<lambda>b. None),
      json_chapter = (\<lambda>b. None),
      json_dump = (\<lambda>d. []),
      json_load = (\<lambda>b. None),
      reencode = (\<lambda>raw q. None),
      tqdm_fractions = (\<lambda>i n. [])\<rparr>"

definition world0 :: world where
  "world0 = \<lparr>clock = 0, trace = [], files = Map.empty, logged = [], reported = []\<rparr>"

definition sample_chapter :: "int \<Rightarrow> string \<Rightarrow> string \<Rightarrow> chapter_rec" where
  "sample_chapter i vol num =
     \<lparr>ch_id = i, ch_volume = vol, ch_chapter = num, ch_name = ''name'',
      ch_attachments = [], ch_content = Unknown\<rparr>"

definition sample_data :: "chapter_rec list \<Rightarrow> ranobe_data" where
  "sample_data chs =
     \<lparr>rd_id = ''1--book'', rd_title = Some ''Book'', rd_original_title = None,
      rd_description = None, rd_cover_image = None, rd_chapters = chs\<rparr>"

definition sample_doc :: chapter_data where
  "sample_doc =
     \<lparr>cd_id = 7, cd_volume = ''1'', cd_number = ''2'', cd_name = ''Begin'',
      cd_attachments = [\<lparr>att_url = ''https://h/a.jpg'', att_filename = ''a.jpg''\<rparr>],
      cd_content = Dict ''doc'' [Node ''image'' [] [''a'']]\<rparr>"

text \<open>
  A service that knows one book without cover and without chapters, and the record that
  \<open>get_ranobe_content\<close> saves for it; \<open>json.load\<close> reads back what \<open>json.dump\<close>
  wrote. The wrapper of the progress object reports \<open>i / n\<close>, and 1 for an empty list.
\<close>

definition saved_book :: ranobe_data where
  "saved_book =
     \<lparr>rd_id = ''1--book'', rd_title = Some ''Book'', rd_original_title = Some [],
      rd_description = Some [], rd_cover_image = None, rd_chapters = []\<rparr>"

definition env_ok :: env where
  "env_ok =
     env0\<lparr>server := (\<lambda>n u. Response 200 ''{}''),
          re_search := (\<lambda>pat u. Some ''1--book''),
          json_book_info := (\<lambda>b. Some (Some \<lparr>rus_name = Some ''Book'', info_name = None,
                                                summary = None\<rparr>)),
          json_cover := (\<lambda>b. Some None),
          json_chapters := (\<lambda>b. Some []),
          json_dump := (\<lambda>d. if d = saved_book then ''saved'' else []),
          json_load := (\<lambda>b. if b = ''saved'' then Some saved_book else None),
          tqdm_fractions := (\<lambda>i n. [if n = 0 then 1 else of_nat i / of_nat n])\<rparr>"

section \<open>Properties of the document assembly\<close>

subsection \<open>Structured content: \<open>_doc_to_html\<close>\<close>

lemma name_map_Some:
  "name_map atts k = Some f \<Longrightarrow> \<exists>a\<in>set atts. fst (splitext (att_filename a)) = k \<and> att_filename a = f"
proof -
  have "fold (\<lambda>att m. m(fst (splitext (att_filename att)) \<mapsto> att_filename att)) atts m0 k = Some f \<Longrightarrow>
        m0 k = Some f \<or> (\<exists>a\<in>set atts. fst (splitext (att_filename a)) = k \<and> att_filename a = f)" for m0
    by (induction atts arbitrary: m0) (fastforce split: if_splits)+
  from this[of Map.empty] show "name_map atts k = Some f \<Longrightarrow> ?thesis"
    by (simp add: name_map_def)
qed

lemma name_map_None:
  "(\<forall>a\<in>set atts. fst (splitext (att_filename a)) \<noteq> k) \<Longrightarrow> name_map atts k = None"
  using name_map_Some[of atts k] by (cases "name_map atts k") auto

lemma name_map_hit:
  "a \<in> set atts \<Longrightarrow> \<exists>f. name_map atts (fst (splitext (att_filename a))) = Some f"
proof -
  have "a \<in> set atts \<or> m0 (fst (splitext (att_filename a))) \<noteq> None \<Longrightarrow>
     fold (\<lambda>att m. m(fst (splitext (att_filename att)) \<mapsto> att_filename att)) atts m0 (fst (splitext (att_filename a))) \<noteq> None" for m0
    by (induction atts arbitrary: m0) auto
  from this[of Map.empty] show "a \<in> set atts \<Longrightarrow> ?thesis"
    by (auto simp add: name_map_def)
qed

lemma splitext_Nil: "fst (splitext []) = []"
  by (simp add: splitext_def rfind_def)

lemma image_html_parts:
  "p \<in> set (fst (image_html (name_map atts) i)) \<Longrightarrow>
   i \<noteq> [] \<and> (\<exists>a\<in>set atts. fst (splitext (att_filename a)) = i \<and> p = img_tag (att_filename a))"
  by (auto simp: image_html_def split: if_splits option.splits dest: name_map_Some)

lemma image_html_unmatched:
  "\<forall>a\<in>set atts. fst (splitext (att_filename a)) \<noteq> i \<Longrightarrow>
   image_html (name_map atts) i = ([], if i = [] then [] else [No_attachment i])"
  by (simp add: image_html_def name_map_None)

lemma image_html_matched:
  assumes "a \<in> set atts" "fst (splitext (att_filename a)) = i" "i \<noteq> []"
  shows "\<exists>b\<in>set atts. fst (splitext (att_filename b)) = i \<and>
           image_html (name_map atts) i = ([img_tag (att_filename b)], [])"
proof -
  from name_map_hit[OF assms(1)] assms(2) obtain f where f: "name_map atts i = Some f" by auto
  from name_map_Some[OF f] obtain b where b: "b \<in> set atts" "fst (splitext (att_filename b)) = i" "att_filename b = f"
    by auto
  with assms(3) have "f \<noteq> []" using splitext_Nil by auto
  with f b assms(3) show ?thesis by (auto simp: image_html_def)
qed

lemma node_html_parts:
  "p \<in> set (fst (node_html (name_map atts) nd)) \<Longrightarrow>
     (ntype nd = ''paragraph'' \<and> p = p_tag (paragraph_text (ncontent nd)))
   \<or> (ntype nd = ''image'' \<and> (\<exists>i\<in>set (nimages nd). \<exists>a\<in>set atts.
          i \<noteq> [] \<and> fst (splitext (att_filename a)) = i \<and> p = img_tag (att_filename a)))"
  by (auto simp: node_html_def Let_def split: if_splits dest!: image_html_parts)



lemma stem_a: "fst (splitext ''a.jpg'') = ''a''" by code_simp
lemma stem_ne: "fst (splitext ''a.jpg'') \<noteq> ''b''" by code_simp




subsection \<open>The image cache: \<open>_compress_image\<close>\<close>

lemma compress_image_cached:
  "image_cache st p = Some data \<Longrightarrow> compress_image env fs st p = (Inr data, st)"
  by (simp add: compress_image_def)

lemma compress_image_success:
  "image_cache st p = None \<Longrightarrow> fs p = Some raw \<Longrightarrow> reencode env raw (image_quality st) = Some data
   \<Longrightarrow> compress_image env fs st p =
         (Inr data, st\<lparr>opened := opened st @ [p], image_cache := (image_cache st)(p \<mapsto> data)\<rparr>)"
  by (simp add: compress_image_def)

lemma compress_image_failure:
  "image_cache st p = None \<Longrightarrow> fs p = Some raw \<Longrightarrow> reencode env raw (image_quality st) = None
   \<Longrightarrow> compress_image env fs st p =
         (Inr raw, st\<lparr>opened := opened st @ [p], logs := logs st @ [Compress_failed p]\<rparr>)"
  by (simp add: compress_image_def warn_def)

text \<open>
  Claim C6, as amended. For a source path that is not cached yet and whose file the
  imaging library re-encodes, two calls return the same bytes, the image is opened
  once, and the second call is answered from the cache without changing the object.
\<close>

theorem compress_image_twice:
  assumes "image_cache st p = None" and "fs p = Some raw"
    and "reencode env raw (image_quality st) = Some data"
  shows "\<exists>st1 st2. compress_image env fs st p = (Inr data, st1)
           \<and> compress_image env fs st1 p = (Inr data, st2)
           \<and> image_cache st1 p = Some data
           \<and> st2 = st1
           \<and> opened st2 = opened st @ [p]"
  using assms by (simp add: compress_image_success compress_image_cached)

theorem compress_image_twice_witness:
  "\<exists>st1. compress_image (env0\<lparr>reencode := (\<lambda>raw q. Some (''jpeg:'' @ raw))\<rparr>) [''out/imgs/a.png'' \<mapsto> ''png'']
            (new_creator ''out/ranobe.json'' 85 (sample_data [])) ''out/imgs/a.png'' = (Inr ''jpeg:png'', st1)
       \<and> compress_image (env0\<lparr>reencode := (\<lambda>raw q. Some (''jpeg:'' @ raw))\<rparr>) [''out/imgs/a.png'' \<mapsto> ''png'']
            st1 ''out/imgs/a.png'' = (Inr ''jpeg:png'', st1)
       \<and> opened st1 = [''out/imgs/a.png'']"
  using compress_image_twice[of "new_creator ''out/ranobe.json'' 85 (sample_data [])" "''out/imgs/a.png''"
      "[''out/imgs/a.png'' \<mapsto> ''png'']" "''png''" "env0\<lparr>reencode := (\<lambda>raw q. Some (''jpeg:'' @ raw))\<rparr>" "''jpeg:png''"]
  by (auto simp: new_creator_def)

text \<open>
  Claim C6 as stated fails for a file that the imaging library rejects: nothing is
  cached, and the second call opens the image again.
\<close>

theorem compress_image_twice_counterexample:
  "opened (snd (compress_image env0 [''out/imgs/a.png'' \<mapsto> ''png'']
             (snd (compress_image env0 [''out/imgs/a.png'' \<mapsto> ''png'']
                (new_creator ''out/ranobe.json'' 85 (sample_data [])) ''out/imgs/a.png''))
             ''out/imgs/a.png''))
     = [''out/imgs/a.png'', ''out/imgs/a.png'']
   \<and> image_cache (snd (compress_image env0 [''out/imgs/a.png'' \<mapsto> ''png'']
                (new_creator ''out/ranobe.json'' 85 (sample_data [])) ''out/imgs/a.png''))
         ''out/imgs/a.png'' = None"
  by (simp add: compress_image_def new_creator_def env0_def warn_def)




subsection \<open>The title page: \<open>_make_title_page\<close>\<close>

lemma title_link_empty: "title_link env [] = ''#''"
  by (simp add: title_link_def)

lemma title_link_unparsed:
  "\<exists>c\<in>set chs. py_float env (ch_volume c) = None \<Longrightarrow> title_link env chs = ''#''"
  by (auto simp: title_link_def Let_def list_all_iff)

lemma sort_key_hd_min:
  assumes "xs \<noteq> []"
  shows "hd (sort_key f xs) \<in> set xs \<and> (\<forall>y\<in>set xs. f (hd (sort_key f xs)) \<le> f y)"
proof -
  have ne: "sort_key f xs \<noteq> []" using assms by (metis length_0_conv length_sort)
  then obtain z zs where z: "sort_key f xs = z # zs" by (cases "sort_key f xs") auto
  have "sorted (map f (z # zs))" using sorted_sort_key[of f xs] z by simp
  then have "\<forall>y\<in>set (z # zs). f z \<le> f y" by auto
  moreover have "set (z # zs) = set xs" using z set_sort[of f xs] by simp
  ultimately show ?thesis using z by auto
qed

lemma title_link_parsed:
  assumes "chs \<noteq> []" and "\<forall>c\<in>set chs. py_float env (ch_volume c) \<noteq> None"
  shows "\<exists>c\<in>set chs.
           (\<forall>c'\<in>set chs. the (py_float env (ch_volume c)) \<le> the (py_float env (ch_volume c')))
           \<and> title_link env chs = volume_anchor (ch_volume c)"
proof -
  let ?vs = "map ch_volume chs"
  let ?f = "\<lambda>x. the (py_float env x)"
  have ne: "?vs \<noteq> []" using assms(1) by simp
  from sort_key_hd_min[OF ne, of ?f]
  have h: "hd (sort_key ?f ?vs) \<in> set ?vs" "\<forall>y\<in>set ?vs. ?f (hd (sort_key ?f ?vs)) \<le> ?f y"
    by auto
  have sne: "sort_key ?f ?vs \<noteq> []" using ne by (metis length_0_conv length_sort)
  have all: "list_all (\<lambda>x. py_float env x \<noteq> None) ?vs"
    using assms(2) by (auto simp: list_all_iff)
  have link: "title_link env chs = volume_anchor (hd (sort_key ?f ?vs))"
    using ne all sne by (cases "sort_key ?f ?vs") (simp_all add: title_link_def Let_def)
  from h(1) obtain c where c: "c \<in> set chs" "ch_volume c = hd (sort_key ?f ?vs)" by auto
  with h(2) link show ?thesis by (intro bexI[of _ c]) auto
qed

lemma fd1: "float_digits ''1'' = Some 1"
  by code_simp
lemma fd2: "float_digits ''2'' = Some 2"
  by code_simp
lemma fdx: "float_digits ''extra'' = None"
  by code_simp





subsection \<open>The order of the volumes: \<open>create_epub\<close>\<close>

text \<open>
  Claim C4 promises the order for every record, also one that mixes numeric and other
  volume labels. For the record with the labels \<open>1\<close> and \<open>extra\<close>, \<open>sorted\<close>
  compares the key \<open>1.0\<close> with the key \<open>extra\<close>: \<open>create_epub\<close> ends in
  \<open>TypeError\<close> and no document is assembled.
\<close>

theorem create_epub_mixed_labels:
  "create_epub env0 Map.empty
     (new_creator ''out/ranobe.json'' 85
        (sample_data [sample_chapter 1 ''1'' ''1'', sample_chapter 2 ''extra'' ''1'']))
   = Inl TypeError"
  by (simp add: create_epub_def new_creator_def sample_data_def sample_chapter_def
      add_cover_def add_item_def volumes_map_def sorted_vols_def vol_key_def env0_def fd1 fdx
      Let_def)


subsection \<open>The order where \<open>sorted\<close> does not raise\<close>

text \<open>
  When \<open>float\<close> accepts every volume label the volumes are in numeric order; when it
  rejects every label they are in lexical order; one label of each kind ends the sort in
  \<open>TypeError\<close>. The chapters of a volume are in the order of their numbers, and the
  volumes and chapters of the table of contents follow these orders.
\<close>

lemma sorted_vols_numeric:
  assumes "\<forall>v\<in>set vs. py_float env v \<noteq> None"
  shows "\<exists>svs. sorted_vols env vs = Inr svs \<and> set svs = set vs \<and> length svs = length vs
           \<and> sorted (map (\<lambda>v. the (py_float env v)) svs)"
proof -
  have k: "vol_key env v = Float_key (the (py_float env v))" if "v \<in> set vs" for v
    using assms that by (auto simp: vol_key_def)
  then have all: "list_all (\<lambda>v. is_float_key (vol_key env v)) vs"
    by (simp add: list_all_iff)
  let ?svs = "sort_key (\<lambda>v. float_of_key (vol_key env v)) vs"
  have s: "sorted (map (\<lambda>v. float_of_key (vol_key env v)) ?svs)" by (rule sorted_sort_key)
  have "map (\<lambda>v. float_of_key (vol_key env v)) ?svs = map (\<lambda>v. the (py_float env v)) ?svs"
    using k by (intro map_cong) auto
  with s have "sorted (map (\<lambda>v. the (py_float env v)) ?svs)" by simp
  with all show ?thesis by (simp add: sorted_vols_def)
qed

lemma sorted_vols_lexical:
  assumes "\<forall>v\<in>set vs. py_float env v = None"
  shows "\<exists>svs. sorted_vols env vs = Inr svs \<and> set svs = set vs \<and> length svs = length vs
           \<and> sorted svs"
proof -
  have k: "vol_key env v = Str_key v" if "v \<in> set vs" for v
    using assms that by (auto simp: vol_key_def)
  then have all: "list_all (\<lambda>v. \<not> is_float_key (vol_key env v)) vs"
    by (simp add: list_all_iff)
  let ?svs = "sort_key (\<lambda>v. str_of_key (vol_key env v)) vs"
  have s: "sorted (map (\<lambda>v. str_of_key (vol_key env v)) ?svs)" by (rule sorted_sort_key)
  have "map (\<lambda>v. str_of_key (vol_key env v)) ?svs = map (\<lambda>v. v) ?svs"
    using k by (intro map_cong) auto
  with s have srt: "sorted ?svs" by simp
  show ?thesis
  proof (cases "vs = []")
    case True
    then show ?thesis by (simp add: sorted_vols_def)
  next
    case False
    then obtain v where "v \<in> set vs" by (cases vs) auto
    with k have "\<not> list_all (\<lambda>v. is_float_key (vol_key env v)) vs"
      by (auto simp: list_all_iff)
    with all srt show ?thesis by (simp add: sorted_vols_def)
  qed
qed

lemma sorted_vols_mixed:
  assumes "v \<in> set vs" "py_float env v \<noteq> None" "v' \<in> set vs" "py_float env v' = None"
  shows "sorted_vols env vs = Inl TypeError"
proof -
  have "is_float_key (vol_key env v)" "\<not> is_float_key (vol_key env v')"
    using assms(2,4) by (auto simp: vol_key_def)
  with assms(1,3) show ?thesis by (auto simp: sorted_vols_def list_all_iff)
qed

lemma sorted_chapters_order:
  assumes "sorted_chapters env chs = Inr cs"
  shows "sorted (map (\<lambda>c. the (py_float env (ch_chapter c))) cs) \<and> set cs = set chs
         \<and> length cs = length chs"
  using assms by (auto simp: sorted_chapters_def split: if_splits)

lemma chapters_loop_toc:
  "chapters_loop env fs st chs = Inr ((parts, chapters_toc), st') \<Longrightarrow>
   chapters_toc = map (\<lambda>c. (chapter_anchor c, chapter_title c)) chs"
  by (induction chs arbitrary: st parts chapters_toc st')
     (auto split: sum.splits prod.splits)

lemma volumes_loop_order:
  "volumes_loop env fs vm st svols = Inr ((vols, spine), st') \<Longrightarrow>
   map fst vols = map (\<lambda>vol. ru_tom @ vol) svols
   \<and> length spine = length svols
   \<and> list_all2 (\<lambda>vol v. \<exists>cs. sorted_chapters env (case map_of vm vol of Some cs \<Rightarrow> cs | None \<Rightarrow> []) = Inr cs
                    \<and> snd (snd v) = map (\<lambda>c. (chapter_anchor c, chapter_title c)) cs)
       svols vols"
proof (induction svols arbitrary: st vols spine st')
  case Nil
  then show ?case by simp
next
  case (Cons vol rest)
  from Cons.prems obtain cs where cs: "sorted_chapters env (case map_of vm vol of Some cs \<Rightarrow> cs | None \<Rightarrow> []) = Inr cs"
    by (auto split: sum.splits)
  from Cons.prems cs obtain parts toc st1 where cl: "chapters_loop env fs st cs = Inr ((parts, toc), st1)"
    by (auto split: sum.splits prod.splits)
  let ?page = "Epub_html (ru_tom @ vol) (''volume_'' @ vol @ ''.xhtml'')
                      (join newline
                         ((''<h2 id=\"volume_'' @ vol @ ''\">'' @ (ru_tom @ vol) @ ''</h2>'') # parts))"
  from Cons.prems cs cl obtain vols' spine' where r:
    "volumes_loop env fs vm (add_item ?page st1) rest = Inr ((vols', spine'), st')"
    "vols = (ru_tom @ vol, ''volume_'' @ vol @ ''.xhtml'', toc) # vols'"
    "spine = Spine_page ?page # spine'"
    by (auto simp: Let_def split: sum.splits prod.splits)
  from Cons.IH[OF r(1)] chapters_loop_toc[OF cl] cs r(2,3) show ?case by auto
qed

section \<open>Properties of the content acquisition\<close>

subsection \<open>The state of a run and the retry loops\<close>

lemma http_get_simps [simp]:
  "fst (http_get env u w) = server env (clock w) u"
  "clock (snd (http_get env u w)) = clock w + 1"
  "trace (snd (http_get env u w)) = trace w @ [Request u]"
  "files (snd (http_get env u w)) = files w"
  "reported (snd (http_get env u w)) = reported w"
  by (simp_all add: http_get_def)

lemma sleep_simps [simp]:
  "clock (sleep t w) = clock w"
  "trace (sleep t w) = trace w @ [Sleep t]"
  "files (sleep t w) = files w"
  "reported (sleep t w) = reported w"
  by (simp_all add: sleep_def)

lemma logging_simps [simp]:
  "clock (logging l w) = clock w"
  "trace (logging l w) = trace w"
  "files (logging l w) = files w"
  "reported (logging l w) = reported w"
  "logged (logging l w) = logged w @ [l]"
  by (simp_all add: logging_def)

lemma progress_simps [simp]:
  "clock (progress f w) = clock w"
  "trace (progress f w) = trace w"
  "files (progress f w) = files w"
  "reported (progress f w) = reported w @ [f]"
  by (simp_all add: progress_def)

lemma report_simps [simp]:
  "clock (report fs w) = clock w"
  "trace (report fs w) = trace w"
  "files (report fs w) = files w"
  "reported (report fs w) = reported w @ fs"
  by (simp_all add: report_def)

lemma image_attempts_reported [simp]:
  "reported (snd (image_attempts env u p m t w as)) = reported w"
  by (induction as arbitrary: w)
     (simp_all add: http_get_def Let_def split: attempt.splits)

lemma chapter_attempts_reported [simp]:
  "reported (snd (chapter_attempts env u m t w as)) = reported w"
  by (induction as arbitrary: w)
     (simp_all add: http_get_def Let_def split: attempt.splits)

lemma image_attempts_all_fail:
  "\<forall>k<length as. \<forall>b. image_attempt env p (server env (clock w + k) (image_url u)) \<noteq> Returned b
   \<Longrightarrow> fst (image_attempts env u p m t w as) = False
     \<and> clock (snd (image_attempts env u p m t w as)) = clock w + length as
     \<and> trace (snd (image_attempts env u p m t w as)) = trace w @ retry_trace (image_url u) m t as
     \<and> files (snd (image_attempts env u p m t w as)) = files w"
proof (induction as arbitrary: w)
  case Nil
  then show ?case by (simp add: retry_trace_def)
next
  case (Cons a as)
  let ?r = "server env (clock w) (image_url u)"
  from Cons.prems have r: "\<forall>b. image_attempt env p ?r \<noteq> Returned b" by fastforce
  have "\<exists>w'. image_attempts env u p m t w (a # as) = image_attempts env u p m t w' as
          \<and> clock w' = clock w + 1
          \<and> trace w' = trace w @ Request (image_url u) # (if a < m then [Sleep t] else [])
          \<and> files w' = files w"
    using r by (cases "image_attempt env p ?r") (auto simp: http_get_def Let_def)
  then obtain w' where w': "image_attempts env u p m t w (a # as) = image_attempts env u p m t w' as"
    "clock w' = clock w + 1"
    "trace w' = trace w @ Request (image_url u) # (if a < m then [Sleep t] else [])"
    "files w' = files w" by blast
  from Cons.prems w'(2)
  have "\<forall>k<length as. \<forall>b. image_attempt env p (server env (clock w' + k) (image_url u)) \<noteq> Returned b"
    by fastforce
  from Cons.IH[OF this] w' show ?case by (simp add: retry_trace_def)
qed

lemma chapter_attempts_all_fail:
  "\<forall>k<length as. \<forall>d. chapter_attempt env (server env (clock w + k) u) \<noteq> Returned d
   \<Longrightarrow> fst (chapter_attempts env u m t w as) = None
     \<and> clock (snd (chapter_attempts env u m t w as)) = clock w + length as
     \<and> trace (snd (chapter_attempts env u m t w as)) = trace w @ retry_trace u m t as
     \<and> files (snd (chapter_attempts env u m t w as)) = files w"
proof (induction as arbitrary: w)
  case Nil
  then show ?case by (simp add: retry_trace_def)
next
  case (Cons a as)
  let ?r = "server env (clock w) u"
  from Cons.prems have r: "\<forall>d. chapter_attempt env ?r \<noteq> Returned d" by fastforce
  have "\<exists>w'. chapter_attempts env u m t w (a # as) = chapter_attempts env u m t w' as
          \<and> clock w' = clock w + 1
          \<and> trace w' = trace w @ Request u # (if a < m then [Sleep t] else [])
          \<and> files w' = files w"
    using r by (cases "chapter_attempt env ?r") (auto simp: http_get_def Let_def)
  then obtain w' where w': "chapter_attempts env u m t w (a # as) = chapter_attempts env u m t w' as"
    "clock w' = clock w + 1"
    "trace w' = trace w @ Request u # (if a < m then [Sleep t] else [])"
    "files w' = files w" by blast
  from Cons.prems w'(2)
  have "\<forall>k<length as. \<forall>d. chapter_attempt env (server env (clock w' + k) u) \<noteq> Returned d"
    by fastforce
  from Cons.IH[OF this] w' show ?case by (simp add: retry_trace_def)
qed

lemma retry_trace_upt:
  "retry_trace u m t [1..<m + 1] = butlast (concat (replicate m [Request u, Sleep t]))"
proof -
  have gen: "k \<le> m \<Longrightarrow> retry_trace u m t [1..<k + 1]
        = (if k = m then butlast (concat (replicate k [Request u, Sleep t]))
           else concat (replicate k [Request u, Sleep t]))" for k
  proof (induction k)
    case 0
    then show ?case by (simp add: retry_trace_def)
  next
    case (Suc k)
    then have "retry_trace u m t [1..<k + 1] = concat (replicate k [Request u, Sleep t])" by simp
    moreover have "[1..<Suc k + 1] = [1..<k + 1] @ [Suc k]" by simp
    ultimately have "retry_trace u m t [1..<Suc k + 1]
        = concat (replicate k [Request u, Sleep t]) @ Request u # (if Suc k < m then [Sleep t] else [])"
      unfolding retry_trace_def by (simp del: upt_Suc)
    moreover have "concat (replicate (Suc k) [Request u, Sleep t])
        = concat (replicate k [Request u, Sleep t]) @ [Request u, Sleep t]"
    proof -
      have "replicate (Suc k) [Request u, Sleep t] = replicate k [Request u, Sleep t] @ [[Request u, Sleep t]]"
        by (simp add: replicate_append_same)
      then show ?thesis by (simp del: replicate_Suc)
    qed
    ultimately show ?case using Suc.prems by (auto simp: butlast_append simp del: replicate_Suc)
  qed
  from gen[of m] show ?thesis by simp
qed

lemma requests_retry_trace: "requests (retry_trace u m t as) = replicate (length as) u"
  by (induction as) (auto simp: retry_trace_def requests_def)

lemma sleeps_retry_trace_upt: "sleeps (retry_trace u m t [1..<m + 1]) = replicate (m - 1) t"
proof -
  have "k \<le> m \<Longrightarrow> sleeps (retry_trace u m t [1..<k + 1]) = replicate (if k = m then m - 1 else k) t" for k
  proof (induction k)
    case 0 then show ?case by (simp add: retry_trace_def sleeps_def)
  next
    case (Suc k)
    have "[1..<Suc k + 1] = [1..<k + 1] @ [Suc k]" by simp
    then have "sleeps (retry_trace u m t [1..<Suc k + 1])
       = sleeps (retry_trace u m t [1..<k + 1]) @ (if Suc k < m then [t] else [])"
      unfolding retry_trace_def sleeps_def by (simp del: upt_Suc)
    with Suc show ?case by (auto simp: replicate_append_same)
  qed
  from this[of m] show ?thesis by simp
qed


lemma requests_butlast_replicate:
  "requests (butlast (concat (replicate m [Request u, Sleep t]))) = replicate m u"
proof -
  have "requests (retry_trace u m t [1..<m + 1]) = replicate (length [1..<m + 1]) u"
    by (rule requests_retry_trace)
  then show ?thesis by (simp only: retry_trace_upt length_upt add_diff_cancel_right')
qed

lemma sleeps_butlast_replicate:
  "sleeps (butlast (concat (replicate m [Request u, Sleep t]))) = replicate (m - 1) t"
  using sleeps_retry_trace_upt[of u m t] by (simp only: retry_trace_upt)


subsection \<open>A chapter whose fetch fails: \<open>get_chapter_data\<close>\<close>

lemma failed_response_chapter:
  "failed_response r \<Longrightarrow> chapter_attempt env r \<noteq> Returned d"
  by (auto simp: failed_response_def chapter_attempt_def split: response.splits)

lemma failed_response_image:
  "failed_response r \<Longrightarrow> image_attempt env p r \<noteq> Returned b"
  by (auto simp: failed_response_def image_attempt_def split: response.splits)

lemma get_chapter_data_all_fail:
  assumes "\<forall>k<max_retries. failed_response (server env (clock w + k) (chapter_url book_id volume chap))"
  shows "fst (get_chapter_data env w book_id volume chap max_retries sleep_time) = None"
    and "trace (snd (get_chapter_data env w book_id volume chap max_retries sleep_time))
           = trace w @ retry_trace (chapter_url book_id volume chap) max_retries sleep_time [1..<max_retries + 1]"
    and "clock (snd (get_chapter_data env w book_id volume chap max_retries sleep_time)) = clock w + max_retries"
proof -
  have "\<forall>k<length [1..<max_retries + 1]. \<forall>d.
          chapter_attempt env (server env (clock w + k) (chapter_url book_id volume chap)) \<noteq> Returned d"
    using assms failed_response_chapter by auto
  from chapter_attempts_all_fail[OF this, of max_retries sleep_time]
  show "fst (get_chapter_data env w book_id volume chap max_retries sleep_time) = None"
    and "trace (snd (get_chapter_data env w book_id volume chap max_retries sleep_time))
           = trace w @ retry_trace (chapter_url book_id volume chap) max_retries sleep_time [1..<max_retries + 1]"
    and "clock (snd (get_chapter_data env w book_id volume chap max_retries sleep_time)) = clock w + max_retries"
    by (simp_all add: get_chapter_data_def)
qed

text \<open>
  Claim C5. When every one of the \<open>max_retries\<close> attempts of \<open>get_chapter_data\<close>
  sees a status other than 200 or a transport error, the call returns \<open>None\<close>; its
  events are \<open>max_retries\<close> requests to the chapter's URL with one pause of
  \<open>sleep_time\<close> between consecutive requests, so \<open>max_retries - 1\<close> pauses, all of
  the same length. \<open>get_ranobe_content\<close> calls it with the defaults 5 and 1; when
  the five attempts fail, the step of the chapter loop makes five requests and leaves
  the chapter list as it was.
\<close>

theorem get_chapter_data_exhausted:
  "((\<forall>k<max_retries. failed_response (server env (clock w + k) (chapter_url book_id volume chap))) \<longrightarrow>
      fst (get_chapter_data env w book_id volume chap max_retries sleep_time) = None
      \<and> trace (snd (get_chapter_data env w book_id volume chap max_retries sleep_time))
          = trace w @ butlast (concat (replicate max_retries
                                 [Request (chapter_url book_id volume chap), Sleep sleep_time]))
      \<and> requests (butlast (concat (replicate max_retries
                                 [Request (chapter_url book_id volume chap), Sleep sleep_time])))
          = replicate max_retries (chapter_url book_id volume chap)
      \<and> sleeps (butlast (concat (replicate max_retries
                                 [Request (chapter_url book_id volume chap), Sleep sleep_time])))
          = replicate (max_retries - 1) sleep_time)
   \<and> ((\<forall>k<5. failed_response (server env (clock w + k)
                 (chapter_url book_id (str_int (stub_tom ch)) (str_float env (stub_chapter ch))))) \<longrightarrow>
      snd (chapter_step env book_id out_path (w, all_chapters) ch) = all_chapters
      \<and> requests (drop (length (trace w))
                   (trace (fst (chapter_step env book_id out_path (w, all_chapters) ch))))
          = replicate 5 (chapter_url book_id (str_int (stub_tom ch)) (str_float env (stub_chapter ch))))"
proof (intro conjI impI)
  assume a: "\<forall>k<max_retries. failed_response (server env (clock w + k) (chapter_url book_id volume chap))"
  show "fst (get_chapter_data env w book_id volume chap max_retries sleep_time) = None"
    by (rule get_chapter_data_all_fail(1)[OF a])
  show "trace (snd (get_chapter_data env w book_id volume chap max_retries sleep_time))
          = trace w @ butlast (concat (replicate max_retries
                                 [Request (chapter_url book_id volume chap), Sleep sleep_time]))"
    using get_chapter_data_all_fail(2)[OF a, of sleep_time] by (simp only: retry_trace_upt)
next
  show "requests (butlast (concat (replicate max_retries
                                 [Request (chapter_url book_id volume chap), Sleep sleep_time])))
          = replicate max_retries (chapter_url book_id volume chap)"
    by (rule requests_butlast_replicate)
  show "sleeps (butlast (concat (replicate max_retries
                                 [Request (chapter_url book_id volume chap), Sleep sleep_time])))
          = replicate (max_retries - 1) sleep_time"
    by (rule sleeps_butlast_replicate)
next
  let ?u = "chapter_url book_id (str_int (stub_tom ch)) (str_float env (stub_chapter ch))"
  let ?g = "get_chapter_data env w book_id (str_int (stub_tom ch)) (str_float env (stub_chapter ch)) 5 1"
  assume a: "\<forall>k<5. failed_response (server env (clock w + k) ?u)"
  obtain r w1 where g: "?g = (r, w1)" by (cases ?g)
  from get_chapter_data_all_fail(1)[OF a, of 1] g have r: "r = None" by simp
  from get_chapter_data_all_fail(2)[OF a, of 1] g
  have t: "trace w1 = trace w @ retry_trace ?u 5 1 [1..<5 + 1]" by (simp del: upt_Suc)
  have l: "length [1..<5 + 1] = (5::nat)" by simp
  have step: "chapter_step env book_id out_path (w, all_chapters) ch
                = (logging (Skip_chapter (str_int (stub_tom ch)) (str_float env (stub_chapter ch))) w1, all_chapters)"
    using g r by (simp add: chapter_step_def)
  show "snd (chapter_step env book_id out_path (w, all_chapters) ch) = all_chapters"
    using step by simp
  show "requests (drop (length (trace w))
                   (trace (fst (chapter_step env book_id out_path (w, all_chapters) ch))))
          = replicate 5 ?u"
    using step t requests_retry_trace[of ?u 5 1 "[1..<5 + 1]"] l by (simp del: upt_Suc)
qed

theorem get_chapter_data_exhausted_witness:
  "fst (get_chapter_data env0 world0 ''1--book'' ''1'' ''2.0'' 5 1) = None
   \<and> trace (snd (get_chapter_data env0 world0 ''1--book'' ''1'' ''2.0'' 5 1))
       = [Request ''https://api2.mangalib.me/api/manga/1--book/chapter?number=2&volume=1'', Sleep 1,
          Request ''https://api2.mangalib.me/api/manga/1--book/chapter?number=2&volume=1'', Sleep 1,
          Request ''https://api2.mangalib.me/api/manga/1--book/chapter?number=2&volume=1'', Sleep 1,
          Request ''https://api2.mangalib.me/api/manga/1--book/chapter?number=2&volume=1'', Sleep 1,
          Request ''https://api2.mangalib.me/api/manga/1--book/chapter?number=2&volume=1'']
   \<and> snd (chapter_step env0 ''1--book'' ''out'' (world0, [])
            \<lparr>stub_tom = 1, stub_chapter = 2, stub_name = ''n'', stub_id = 7\<rparr>) = []"
proof -
  have u: "chapter_url ''1--book'' ''1'' ''2.0''
           = ''https://api2.mangalib.me/api/manga/1--book/chapter?number=2&volume=1''"
    by (simp add: chapter_url_def endswith_def)
  have f: "\<forall>k<5. failed_response (server env0 (clock world0 + k) u)" for u
    by (simp add: env0_def failed_response_def)
  have r: "replicate 5 x = [x, x, x, x, x]" for x :: "event list"
    by (simp add: numeral_eq_Suc)
  show ?thesis
    using get_chapter_data_exhausted[of 5 env0 world0 "''1--book''" "''1''" "''2.0''" 1
        "\<lparr>stub_tom = 1, stub_chapter = 2, stub_name = ''n'', stub_id = 7\<rparr>" "''out''" "[]"] f
    by (simp add: u r world0_def)
qed


subsection \<open>Markup content: \<open>download_image\<close> and \<open>fix_img_links_in_html\<close>\<close>

lemma requests_append [simp]: "requests (xs @ ys) = requests xs @ requests ys"
  by (simp add: requests_def)

lemma requests_Cons [simp]:
  "requests (Request u # evs) = u # requests evs"
  "requests (Sleep t # evs) = requests evs"
  "requests [] = []"
  by (simp_all add: requests_def)

lemma image_attempts_step:
  assumes "\<forall>b. image_attempt env p (server env (clock w) (image_url u)) \<noteq> Returned b"
  shows "\<exists>w'. image_attempts env u p m t w (a # as) = image_attempts env u p m t w' as
          \<and> clock w' = clock w + 1
          \<and> trace w' = trace w @ Request (image_url u) # (if a < m then [Sleep t] else [])
          \<and> files w' = files w"
  using assms
  by (cases "image_attempt env p (server env (clock w) (image_url u))")
     (auto simp: http_get_def Let_def)

lemma image_attempts_success_iff:
  "fst (image_attempts env u p m t w as) \<longleftrightarrow>
     (\<exists>k<length as. \<exists>b. image_attempt env p (server env (clock w + k) (image_url u)) = Returned b)"
proof (induction as arbitrary: w)
  case Nil
  then show ?case by simp
next
  case (Cons a as)
  show ?case
  proof (cases "\<exists>b. image_attempt env p (server env (clock w) (image_url u)) = Returned b")
    case True
    then obtain b where b: "image_attempt env p (server env (clock w) (image_url u)) = Returned b"
      by blast
    then have "fst (image_attempts env u p m t w (a # as))" by (simp add: http_get_def)
    moreover from b have "\<exists>k<length (a # as). \<exists>b.
        image_attempt env p (server env (clock w + k) (image_url u)) = Returned b"
      by (intro exI[of _ 0]) auto
    ultimately show ?thesis by blast
  next
    case False
    then have nf: "\<forall>b. image_attempt env p (server env (clock w) (image_url u)) \<noteq> Returned b" by blast
    from image_attempts_step[OF nf, of m t a as]
    obtain w' where w': "image_attempts env u p m t w (a # as) = image_attempts env u p m t w' as"
      "clock w' = clock w + 1" by blast
    have "(\<exists>k<length (a # as). \<exists>b. image_attempt env p (server env (clock w + k) (image_url u)) = Returned b)
          \<longleftrightarrow> (\<exists>k<length as. \<exists>b. image_attempt env p (server env (clock w' + k) (image_url u)) = Returned b)"
      (is "?L \<longleftrightarrow> ?R")
    proof
      assume ?L
      then obtain k b where k: "k < length (a # as)"
        "image_attempt env p (server env (clock w + k) (image_url u)) = Returned b" by blast
      with nf have "k \<noteq> 0" by (metis add.right_neutral)
      then obtain k' where "k = Suc k'" by (cases k) auto
      with k w'(2) show ?R by (intro exI[of _ k']) auto
    next
      assume ?R
      then obtain k b where "k < length as"
        "image_attempt env p (server env (clock w' + k) (image_url u)) = Returned b" by blast
      with w'(2) show ?L by (intro exI[of _ "Suc k"]) auto
    qed
    with Cons.IH[of w'] w'(1) show ?thesis by simp
  qed
qed

lemma image_attempts_requests:
  "\<exists>new j. trace (snd (image_attempts env u p m t w as)) = trace w @ new
      \<and> requests new = replicate j (image_url u) \<and> j \<le> length as \<and> (as \<noteq> [] \<longrightarrow> 1 \<le> j)"
proof (induction as arbitrary: w)
  case Nil
  then show ?case by simp
next
  case (Cons a as)
  show ?case
  proof (cases "\<exists>b. image_attempt env p (server env (clock w) (image_url u)) = Returned b")
    case True
    then obtain b where b: "image_attempt env p (server env (clock w) (image_url u)) = Returned b"
      by blast
    then have "trace (snd (image_attempts env u p m t w (a # as))) = trace w @ [Request (image_url u)]"
      by (simp add: http_get_def)
    then show ?thesis
      by (intro exI[of _ "[Request (image_url u)]"] exI[of _ 1]) simp
  next
    case False
    then have nf: "\<forall>b. image_attempt env p (server env (clock w) (image_url u)) \<noteq> Returned b" by blast
    from image_attempts_step[OF nf, of m t a as]
    obtain w' where w': "image_attempts env u p m t w (a # as) = image_attempts env u p m t w' as"
      "trace w' = trace w @ Request (image_url u) # (if a < m then [Sleep t] else [])" by blast
    from Cons.IH[of w'] obtain new j where
      n: "trace (snd (image_attempts env u p m t w' as)) = trace w' @ new"
         "requests new = replicate j (image_url u)" "j \<le> length as" by blast
    show ?thesis
      using w' n
      by (intro exI[of _ "Request (image_url u) # (if a < m then [Sleep t] else []) @ new"]
                exI[of _ "Suc j"]) auto
  qed
qed

lemma download_image_requests:
  "\<exists>new j. trace (snd (download_image env w u p 5 1)) = trace w @ new
      \<and> requests new = replicate j (image_url u) \<and> 1 \<le> j \<and> j \<le> 5"
  using image_attempts_requests[of env u p 5 1 w "[1..<5 + 1]"]
  by (auto simp: download_image_def)

lemma download_image_success_iff:
  "fst (download_image env w u p 5 1) \<longleftrightarrow>
     (\<exists>k<5. \<exists>b. image_attempt env p (server env (clock w + k) (image_url u)) = Returned b)"
  using image_attempts_success_iff[of env u p 5 1 w "[1..<5 + 1]"]
  by (simp add: download_image_def)

lemma startswith_Nil [simp]: "p \<noteq> [] \<Longrightarrow> \<not> startswith [] p"
  by (auto simp: startswith_def)

lemma fix_img_tag_remote_eq:
  assumes "map_of tag_attrs ''src'' = Some src_val"
    and "startswith src_val ''http'' \<or> startswith src_val ''/uploads/''"
  shows "fix_img_tag env out w tag_attrs =
     (if fst (download_image env w src_val
                (path_join (path_join out ''imgs'') (img_filename env src_val)) 5 1)
      then AList.update ''src'' (''imgs/'' @ img_filename env src_val) (AList.delete ''loading'' tag_attrs)
      else AList.delete ''loading'' tag_attrs,
      snd (download_image env w src_val
             (path_join (path_join out ''imgs'') (img_filename env src_val)) 5 1))"
proof -
  from assms(2) have ne: "src_val \<noteq> []" by (auto simp: startswith_def)
  have src: "map_of (AList.delete ''loading'' tag_attrs) ''src'' = Some src_val"
    using assms(1) by simp
  show ?thesis
    using assms(2) ne src
    by (simp add: fix_img_tag_def Let_def split: prod.splits)
qed

lemma fix_img_tag_local_eq:
  assumes "map_of tag_attrs ''src'' = Some src_val"
    and "\<not> startswith src_val ''http''" and "\<not> startswith src_val ''/uploads/''"
  shows "fix_img_tag env out w tag_attrs = (AList.delete ''loading'' tag_attrs, w)"
proof -
  have src: "map_of (AList.delete ''loading'' tag_attrs) ''src'' = Some src_val"
    using assms(1) by simp
  show ?thesis using assms(2,3) src by (simp add: fix_img_tag_def Let_def)
qed

lemma fix_imgs_find_all:
  "list_all2 (\<lambda>a a'. \<exists>w0. a' = fst (fix_img_tag env out w0 a))
     (find_all_img x) (find_all_img (fst (fix_imgs env out w x)))"
  "list_all2 (\<lambda>a a'. \<exists>w0. a' = fst (fix_img_tag env out w0 a))
     (find_all_img_list xs) (find_all_img_list (fst (fix_imgs_list env out w xs)))"
proof (induction x and xs arbitrary: w and w rule: find_all_img_find_all_img_list.induct)
  case (1 t)
  then show ?case by simp
next
  case (2 nm tag_attrs kids)
  obtain attrs1 w1 where a: "(if nm = ''img'' then fix_img_tag env out w tag_attrs
                          else (tag_attrs, w)) = (attrs1, w1)"
    by (cases "if nm = ''img'' then fix_img_tag env out w tag_attrs else (tag_attrs, w)")
  obtain kids1 w2 where k: "fix_imgs_list env out w1 kids = (kids1, w2)"
    by (cases "fix_imgs_list env out w1 kids")
  have r: "fix_imgs env out w (Tag nm tag_attrs kids) = (Tag nm attrs1 kids1, w2)"
    using a k by simp
  have kids: "list_all2 (\<lambda>a a'. \<exists>w0. a' = fst (fix_img_tag env out w0 a))
     (find_all_img_list kids) (find_all_img_list kids1)"
    using "2.IH"[of w1] k by simp
  show ?case
  proof (cases "nm = ''img''")
    case True
    with a have "attrs1 = fst (fix_img_tag env out w tag_attrs)" by simp
    then have "\<exists>w0. attrs1 = fst (fix_img_tag env out w0 tag_attrs)" by blast
    with True kids r show ?thesis by simp
  next
    case False
    with kids r show ?thesis by simp
  qed
next
  case 3
  then show ?case by simp
next
  case (4 x xs)
  obtain x1 w1 where a: "fix_imgs env out w x = (x1, w1)" by (cases "fix_imgs env out w x")
  obtain xs1 w2 where b: "fix_imgs_list env out w1 xs = (xs1, w2)"
    by (cases "fix_imgs_list env out w1 xs")
  have r: "fix_imgs_list env out w (x # xs) = (x1 # xs1, w2)" using a b by simp
  from "4.IH"(1)[of w] a have h1: "list_all2 (\<lambda>a a'. \<exists>w0. a' = fst (fix_img_tag env out w0 a))
     (find_all_img x) (find_all_img x1)" by simp
  from "4.IH"(2)[of w1] b have h2: "list_all2 (\<lambda>a a'. \<exists>w0. a' = fst (fix_img_tag env out w0 a))
     (find_all_img_list xs) (find_all_img_list xs1)" by simp
  from h1 h2 r show ?case by (simp add: list_all2_appendI)
qed

lemma image_attempt_Returned_iff:
  "image_attempt env p r = Returned b \<longleftrightarrow> r = Response 200 b \<and> can_write env p"
  by (auto simp: image_attempt_def split: response.splits if_splits)

lemma fix_img_tag_loading:
  "map_of (fst (fix_img_tag env out w tag_attrs)) ''loading'' = None"
  by (simp add: fix_img_tag_def Let_def AList.update_conv' AList.delete_conv'
      split: option.splits prod.splits)

lemma fix_imgs_list_loading:
  "\<forall>a\<in>set (find_all_img_list (fst (fix_imgs_list env out w sp))). map_of a ''loading'' = None"
proof
  fix a assume "a \<in> set (find_all_img_list (fst (fix_imgs_list env out w sp)))"
  then obtain i where i: "i < length (find_all_img_list (fst (fix_imgs_list env out w sp)))"
    "a = find_all_img_list (fst (fix_imgs_list env out w sp)) ! i"
    by (auto simp: in_set_conv_nth)
  from fix_imgs_find_all(2)[of env out sp w] i
  obtain w0 where "a = fst (fix_img_tag env out w0 (find_all_img_list sp ! i))"
    by (auto simp: list_all2_conv_all_nth)
  then show "map_of a ''loading'' = None" by (simp add: fix_img_tag_loading)
qed

lemma image_url_https: "startswith src_val ''https://'' \<Longrightarrow> image_url src_val = src_val"
  by (simp add: image_url_def)

lemma image_url_uploads:
  "startswith src_val ''/uploads/'' \<Longrightarrow> image_url src_val = ''https://ranobelib.me'' @ src_val"
  by (cases src_val) (auto simp: image_url_def startswith_def)

lemma download_env0: "\<not> fst (download_image env0 w u p 5 1)"
  unfolding download_image_success_iff
  by (simp add: image_attempt_def env0_def)




lemma download_image_all_fail:
  assumes "\<forall>k<5. failed_response (server env (clock w + k) (image_url u))"
  shows "fst (download_image env w u p 5 1) = False"
    and "requests (drop (length (trace w)) (trace (snd (download_image env w u p 5 1))))
           = replicate 5 (image_url u)"
proof -
  have "\<forall>k<length [1..<5 + 1]. \<forall>b.
          image_attempt env p (server env (clock w + k) (image_url u)) \<noteq> Returned b"
    using assms failed_response_image by auto
  from image_attempts_all_fail[OF this, of 5 1]
  have f: "fst (download_image env w u p 5 1) = False"
    and t: "trace (snd (download_image env w u p 5 1))
          = trace w @ retry_trace (image_url u) 5 1 [1..<5 + 1]"
    by (simp_all add: download_image_def del: upt_Suc One_nat_def)
  show "fst (download_image env w u p 5 1) = False" by (rule f)
  have "requests (retry_trace (image_url u) 5 1 [1..<5 + 1]) = replicate (length [1..<5 + 1]) (image_url u)"
    by (rule requests_retry_trace)
  then show "requests (drop (length (trace w)) (trace (snd (download_image env w u p 5 1))))
           = replicate 5 (image_url u)"
    by (simp add: t del: upt_Suc One_nat_def)
qed




subsection \<open>Structured content in the acquisition: \<open>fix_img_links_in_doc\<close>\<close>

lemma download_all_requests:
  "\<exists>new js. trace (download_all env folder w atts) = trace w @ new
      \<and> length js = length atts \<and> (\<forall>j\<in>set js. 1 \<le> j \<and> j \<le> 5)
      \<and> requests new = concat (map2 (\<lambda>a j. replicate j (image_url (att_url a))) atts js)"
proof (induction atts arbitrary: w)
  case Nil
  then show ?case by simp
next
  case (Cons a atts)
  let ?w1 = "snd (download_image env w (att_url a) (path_join folder (att_filename a)) 5 1)"
  from download_image_requests[of env w "att_url a" "path_join folder (att_filename a)"]
  obtain n1 j where d: "trace ?w1 = trace w @ n1" "requests n1 = replicate j (image_url (att_url a))"
    "1 \<le> j" "j \<le> 5" by blast
  from Cons.IH[of ?w1] obtain n2 js where r: "trace (download_all env folder ?w1 atts) = trace ?w1 @ n2"
    "length js = length atts" "\<forall>j\<in>set js. 1 \<le> j \<and> j \<le> 5"
    "requests n2 = concat (map2 (\<lambda>a j. replicate j (image_url (att_url a))) atts js)" by blast
  show ?case
    using d r
    by (intro exI[of _ "n1 @ n2"] exI[of _ "j # js"]) (simp del: One_nat_def)
qed

text \<open>
  Claim C1, as amended. \<open>fix_img_links_in_doc\<close> returns the node tree it is given,
  unchanged, after one download attempt sequence (one to five requests) for each
  attachment, in the order of the attachment list. For a chapter whose fetched content
  is a \<open>dict\<close> with type \<open>doc\<close>, the normalization step of \<open>get_ranobe_content\<close>
  therefore leaves the content as that node tree, and the chapter appended to the
  chapter list of the record carries the node tree in its content field, not an HTML
  string.
\<close>

theorem fix_img_links_in_doc_unchanged:
  "fst (fix_img_links_in_doc env w doc_data out atts) = doc_data
   \<and> fst (normalize_content env w (Dict ''doc'' content_arr) out atts) = Dict ''doc'' content_arr
   \<and> (\<exists>js. length js = length atts \<and> (\<forall>j\<in>set js. 1 \<le> j \<and> j \<le> 5)
         \<and> requests (drop (length (trace w))
                      (trace (snd (fix_img_links_in_doc env w doc_data out atts))))
             = concat (map2 (\<lambda>a j. replicate j (image_url (att_url a))) atts js))
   \<and> (get_chapter_data env w book_id (str_int (stub_tom ch)) (str_float env (stub_chapter ch)) 5 1
         = (Some d, w1)
       \<and> cd_content d = Dict ''doc'' content_arr \<longrightarrow>
         snd (chapter_step env book_id out (w, all_chapters) ch)
           = all_chapters @
             [\<lparr>ch_id = cd_id d, ch_volume = cd_volume d, ch_chapter = cd_number d,
               ch_name = cd_name d, ch_attachments = cd_attachments d,
               ch_content = Dict ''doc'' content_arr\<rparr>])"
proof (intro conjI impI)
  show "fst (fix_img_links_in_doc env w doc_data out atts) = doc_data"
    by (simp add: fix_img_links_in_doc_def)
  show n: "fst (normalize_content env w (Dict ''doc'' content_arr) out atts) = Dict ''doc'' content_arr"
    for w atts
    by (simp add: normalize_content_def fix_img_links_in_doc_def)
  from download_all_requests[of env "path_join out ''imgs''" w atts]
  show "\<exists>js. length js = length atts \<and> (\<forall>j\<in>set js. 1 \<le> j \<and> j \<le> 5)
         \<and> requests (drop (length (trace w))
                      (trace (snd (fix_img_links_in_doc env w doc_data out atts))))
             = concat (map2 (\<lambda>a j. replicate j (image_url (att_url a))) atts js)"
    by (auto simp: fix_img_links_in_doc_def)
  assume a: "get_chapter_data env w book_id (str_int (stub_tom ch)) (str_float env (stub_chapter ch)) 5 1
         = (Some d, w1)
       \<and> cd_content d = Dict ''doc'' content_arr"
  obtain c w2 where nc: "normalize_content env w1 (Dict ''doc'' content_arr) out (cd_attachments d) = (c, w2)"
    by (cases "normalize_content env w1 (Dict ''doc'' content_arr) out (cd_attachments d)")
  with n[of w1 "cd_attachments d"] have c: "c = Dict ''doc'' content_arr" by simp
  show "snd (chapter_step env book_id out (w, all_chapters) ch)
           = all_chapters @
             [\<lparr>ch_id = cd_id d, ch_volume = cd_volume d, ch_chapter = cd_number d,
               ch_name = cd_name d, ch_attachments = cd_attachments d,
               ch_content = Dict ''doc'' content_arr\<rparr>]"
    using a nc c by (simp add: chapter_step_def Let_def del: One_nat_def)
qed

text \<open>
  Claim C1 as stated fails for every node tree: what \<open>fix_img_links_in_doc\<close> returns
  for a \<open>doc\<close> with one image node is that \<open>doc\<close>, and it is no HTML string.
\<close>

theorem fix_img_links_in_doc_unchanged_counterexample:
  "fst (fix_img_links_in_doc env0 world0 (Dict ''doc'' [Node ''image'' [] [''a'']]) ''out''
          [\<lparr>att_url = ''https://h/a.jpg'', att_filename = ''a.jpg''\<rparr>])
     = Dict ''doc'' [Node ''image'' [] [''a'']]
   \<and> (\<forall>s. fst (fix_img_links_in_doc env0 world0 (Dict ''doc'' [Node ''image'' [] [''a'']]) ''out''
                [\<lparr>att_url = ''https://h/a.jpg'', att_filename = ''a.jpg''\<rparr>]) \<noteq> Html s)"
  by (simp add: fix_img_links_in_doc_def)

theorem fix_img_links_in_doc_unchanged_witness:
  "snd (chapter_step (env0\<lparr>server := (\<lambda>n u. Response 200 ''x''),
                           json_chapter := (\<lambda>b. Some (Some sample_doc))\<rparr>)
          ''1--book'' ''out'' (world0, [])
          \<lparr>stub_tom = 1, stub_chapter = 2, stub_name = ''Begin'', stub_id = 7\<rparr>)
     = [\<lparr>ch_id = 7, ch_volume = ''1'', ch_chapter = ''2'', ch_name = ''Begin'',
         ch_attachments = [\<lparr>att_url = ''https://h/a.jpg'', att_filename = ''a.jpg''\<rparr>],
         ch_content = Dict ''doc'' [Node ''image'' [] [''a'']]\<rparr>]"
proof -
  let ?env = "env0\<lparr>server := (\<lambda>n u. Response 200 ''x''),
                    json_chapter := (\<lambda>b. Some (Some sample_doc))\<rparr>"
  have g: "get_chapter_data ?env world0 ''1--book'' (str_int (stub_tom \<lparr>stub_tom = 1, stub_chapter = 2, stub_name = ''Begin'', stub_id = 7\<rparr>))
             (str_float ?env (stub_chapter \<lparr>stub_tom = 1, stub_chapter = 2, stub_name = ''Begin'', stub_id = 7\<rparr>)) 5 1
        = (Some sample_doc, snd (http_get ?env (chapter_url ''1--book'' (str_int 1) (str_float ?env 2)) world0))"
    by (simp add: get_chapter_data_def upt_conv_Cons chapter_attempt_def env0_def http_get_def)
  show ?thesis
    using fix_img_links_in_doc_unchanged[of ?env world0 "Dict ''doc'' [Node ''image'' [] [''a'']]" "''out''"
        "[]" "[Node ''image'' [] [''a'']]" "''1--book''"
        "\<lparr>stub_tom = 1, stub_chapter = 2, stub_name = ''Begin'', stub_id = 7\<rparr>" sample_doc
        "snd (http_get ?env (chapter_url ''1--book'' (str_int 1) (str_float ?env 2)) world0)" "[]"] g
    by (simp add: sample_doc_def del: One_nat_def)
qed

section \<open>The progress of a run\<close>

lemma download_image_reported [simp]:
  "reported (snd (download_image env w u p m t)) = reported w"
  by (simp add: download_image_def)

lemma get_chapter_data_reported [simp]:
  "reported (snd (get_chapter_data env w b v c m t)) = reported w"
  by (simp add: get_chapter_data_def)

lemma download_all_reported [simp]:
  "reported (download_all env folder w atts) = reported w"
  by (induction atts arbitrary: w) simp_all

lemma fix_img_tag_reported [simp]:
  "reported (snd (fix_img_tag env out w a)) = reported w"
  by (simp add: fix_img_tag_def Let_def split: option.splits prod.splits)
     (metis download_image_reported snd_conv)

lemma fix_imgs_reported:
  "reported (snd (fix_imgs env out w x)) = reported w"
  "reported (snd (fix_imgs_list env out w xs)) = reported w"
proof (induction x and xs arbitrary: w and w rule: find_all_img_find_all_img_list.induct)
  case (1 t)
  then show ?case by simp
next
  case (2 nm tag_attrs kids)
  obtain attrs1 w1 where a: "(if nm = ''img'' then fix_img_tag env out w tag_attrs
                          else (tag_attrs, w)) = (attrs1, w1)"
    by (cases "if nm = ''img'' then fix_img_tag env out w tag_attrs else (tag_attrs, w)")
  then have w1: "reported w1 = reported w"
    by (cases "nm = ''img''") (auto dest: arg_cong[where f = "\<lambda>r. reported (snd r)"])
  obtain kids1 w2 where k: "fix_imgs_list env out w1 kids = (kids1, w2)"
    by (cases "fix_imgs_list env out w1 kids")
  with "2.IH"[of w1] have "reported w2 = reported w1" by simp
  with a k w1 show ?case by simp
next
  case 3
  then show ?case by simp
next
  case (4 x xs)
  obtain x1 w1 where a: "fix_imgs env out w x = (x1, w1)" by (cases "fix_imgs env out w x")
  obtain xs1 w2 where b: "fix_imgs_list env out w1 xs = (xs1, w2)"
    by (cases "fix_imgs_list env out w1 xs")
  from "4.IH"(1)[of w] a have "reported w1 = reported w" by simp
  moreover from "4.IH"(2)[of w1] b have "reported w2 = reported w1" by simp
  ultimately show ?case using a b by simp
qed

lemma normalize_content_reported [simp]:
  "reported (snd (normalize_content env w c out atts)) = reported w"
  by (cases c)
     (simp_all add: normalize_content_def fix_img_links_in_html_def fix_img_links_in_doc_def
        fix_imgs_reported split: prod.splits,
      metis fix_imgs_reported(2) snd_conv)

lemma chapter_step_reported [simp]:
  "reported (fst (chapter_step env b out (w, acc) ch)) = reported w"
proof -
  obtain r w1 where g: "get_chapter_data env w b (str_int (stub_tom ch)) (str_float env (stub_chapter ch)) 5 1 = (r, w1)"
    by (cases "get_chapter_data env w b (str_int (stub_tom ch)) (str_float env (stub_chapter ch)) 5 1")
  then have w1: "reported w1 = reported w"
    by (metis get_chapter_data_reported snd_conv)
  show ?thesis
  proof (cases r)
    case None
    with g w1 show ?thesis by (simp add: chapter_step_def del: One_nat_def)
  next
    case (Some d)
    obtain c w2 where n: "normalize_content env w1 (cd_content d) out (cd_attachments d) = (c, w2)"
      by (cases "normalize_content env w1 (cd_content d) out (cd_attachments d)")
    then have "reported w2 = reported w1" by (metis normalize_content_reported snd_conv)
    with Some g w1 n show ?thesis by (simp add: chapter_step_def Let_def del: One_nat_def)
  qed
qed

text \<open>The fractions that the wrapped chapter loop reports.\<close>

lemma chapters_iter_reported:
  "reported (fst (chapters_iter env b out n i acc stubs))
     = reported (fst acc) @ concat (map (\<lambda>k. tqdm_fractions env k n) [i..<i + length stubs + 1])"
proof (induction stubs arbitrary: i acc)
  case Nil
  then show ?case by simp
next
  case (Cons ch stubs)
  have "[i..<i + length (ch # stubs) + 1] = i # [Suc i..<i + length (ch # stubs) + 1]"
    by (rule upt_conv_Cons) simp
  moreover have "i + length (ch # stubs) + 1 = Suc i + length stubs + 1"
    by simp
  ultimately have "[i..<i + length (ch # stubs) + 1] = i # [Suc i..<Suc i + length stubs + 1]"
    by (simp only:)
  moreover have "reported (fst (chapter_step env b out (report (tqdm_fractions env i n) (fst acc), snd acc) ch))
      = reported (fst acc) @ tqdm_fractions env i n"
    by simp
  ultimately show ?case
    using Cons.IH[of "Suc i" "chapter_step env b out (report (tqdm_fractions env i n) (fst acc), snd acc) ch"]
    by (simp del: upt_Suc)
qed

lemma get_book_info_reported [simp]:
  "reported (snd (get_book_info env w b)) = reported w"
  by (simp add: get_book_info_def http_get_def Let_def split: response.splits option.splits)

lemma get_cover_url_reported [simp]:
  "reported (snd (get_cover_url env w b)) = reported w"
  by (simp add: get_cover_url_def http_get_def Let_def split: response.splits option.splits)

lemma get_chapters_list_reported [simp]:
  "reported (snd (get_chapters_list env w b)) = reported w"
  by (simp add: get_chapters_list_def http_get_def Let_def split: response.splits option.splits sum.splits)

lemma fetch_cover_reported [simp]:
  "reported (snd (fetch_cover env w imgs cu)) = reported w"
  by (simp add: fetch_cover_def Let_def split: option.splits prod.splits)
     (metis download_image_reported snd_conv)

lemma get_book_info_reportedD: "get_book_info env w b = (r, w') \<Longrightarrow> reported w' = reported w"
  by (metis get_book_info_reported snd_conv)

lemma get_cover_url_reportedD: "get_cover_url env w b = (r, w') \<Longrightarrow> reported w' = reported w"
  by (metis get_cover_url_reported snd_conv)

lemma get_chapters_list_reportedD: "get_chapters_list env w b = (r, w') \<Longrightarrow> reported w' = reported w"
  by (metis get_chapters_list_reported snd_conv)

lemma fetch_cover_reportedD: "fetch_cover env w i c = (r, w') \<Longrightarrow> reported w' = reported w"
  by (metis fetch_cover_reported snd_conv)

lemma chapters_iter_reportedD:
  "chapters_iter env b out n i acc stubs = (w', chs) \<Longrightarrow>
   reported w' = reported (fst acc) @ concat (map (\<lambda>k. tqdm_fractions env k n) [i..<i + length stubs + 1])"
  by (metis chapters_iter_reported fst_conv)

lemma save_ranobe_reportedD:
  "save_ranobe env w out b info c chs = (r, w') \<Longrightarrow>
     reported w' = reported w @ (case r of Inr p \<Rightarrow> [19 / 20, 1] | Inl e \<Rightarrow> [19 / 20])"
  by (auto simp: save_ranobe_def Let_def split: if_splits)

lemma get_ranobe_content_shape:
  "\<exists>n k. reported (snd (get_ranobe_content env w u out)) = reported w @ take k (full_run env n)
     \<and> 1 \<le> k
     \<and> (\<forall>p. fst (get_ranobe_content env w u out) = Inr p \<longrightarrow> length (full_run env n) \<le> k)"
proof -
  have t1: "[0] = take 1 (full_run env n)" for n by (simp add: full_run_def)
  have t2: "[0, 1 / 20] = take 2 (full_run env n)" for n by (simp add: full_run_def numeral_eq_Suc)
  have t3: "[0, 1 / 20, 1 / 10] = take 3 (full_run env n)" for n
    by (simp add: full_run_def numeral_eq_Suc)
  have t4: "[0, 1 / 20, 1 / 10, 3 / 20] = take 4 (full_run env n)" for n
    by (simp add: full_run_def numeral_eq_Suc)
  have t5: "[0, 1 / 20, 1 / 10, 3 / 20] @ concat (map (\<lambda>k. tqdm_fractions env k n) [0..<n + 1]) @ [19 / 20]
        = take (length (full_run env n) - 1) (full_run env n)" for n
    by (simp add: full_run_def del: upt_Suc)
  have t6: "[0, 1 / 20, 1 / 10, 3 / 20] @ concat (map (\<lambda>k. tqdm_fractions env k n) [0..<n + 1]) @ [19 / 20, 1]
        = take (length (full_run env n)) (full_run env n)" for n
    by (simp add: full_run_def del: upt_Suc)
  have l: "5 \<le> length (full_run env n)" for n by (simp add: full_run_def del: upt_Suc)
  let ?G = "get_ranobe_content env w u out"
  let ?goal = "\<lambda>R. \<exists>n k. reported (snd R) = reported w @ take k (full_run env n)
     \<and> 1 \<le> k \<and> (\<forall>p. fst R = Inr p \<longrightarrow> length (full_run env n) \<le> k)"
  let ?imgs = "path_join out ''imgs''"
  show ?thesis
  proof (cases "can_mkdir env out \<and> can_mkdir env ?imgs")
    case False
    then have "?G = (Inl OSError, progress 0 w)"
      by (simp add: get_ranobe_content_def Let_def)
    then show ?thesis using t1[of 0] by (intro exI[of _ 0] exI[of _ 1]) simp
  next
    case mk: True
    let ?w2 = "progress (1 / 20) (progress 0 w)"
    show ?thesis
    proof (cases "\<exists>b. extract_book_id env u = Some b \<and> b \<noteq> []")
      case False
      then have "?G = (Inl No_book_id, ?w2)"
        using mk by (auto simp: get_ranobe_content_def Let_def split: option.splits)
      then show ?thesis using t2[of 0] by (intro exI[of _ 0] exI[of _ 2]) simp
    next
      case True
      then obtain b where b: "extract_book_id env u = Some b" "b \<noteq> []" by blast
      obtain r3 w3 where g3: "get_book_info env ?w2 b = (r3, w3)"
        by (cases "get_book_info env ?w2 b")
      then have w3: "reported w3 = reported w @ [0, 1 / 20]"
        by (auto dest: get_book_info_reportedD)
      show ?thesis
      proof (cases "\<exists>info. r3 = Inr (Some info)")
        case False
        then have "\<exists>e. ?G = (Inl e, w3)"
          using mk b g3 by (cases r3) (auto simp: get_ranobe_content_def Let_def split: option.splits)
        then show ?thesis using t2[of 0] w3 by (intro exI[of _ 0] exI[of _ 2]) auto
      next
        case True
        then obtain info where info: "r3 = Inr (Some info)" by blast
        obtain r5 w5 where g5: "get_cover_url env (progress (1 / 10) w3) b = (r5, w5)"
          by (cases "get_cover_url env (progress (1 / 10) w3) b")
        then have w5: "reported w5 = reported w @ [0, 1 / 20, 1 / 10]"
          using w3 by (auto dest: get_cover_url_reportedD)
        show ?thesis
        proof (cases r5)
          case (Inl e)
          then have "?G = (Inl e, w5)"
            using mk b g3 info g5 by (simp add: get_ranobe_content_def Let_def)
          then show ?thesis using t3[of 0] w5 by (intro exI[of _ 0] exI[of _ 3]) auto
        next
          case (Inr cover_url)
          obtain cl w6 where g6: "fetch_cover env w5 ?imgs cover_url = (cl, w6)"
            by (cases "fetch_cover env w5 ?imgs cover_url")
          then have w6: "reported w6 = reported w @ [0, 1 / 20, 1 / 10]"
            using w5 by (auto dest: fetch_cover_reportedD)
          obtain r8 w8 where g8: "get_chapters_list env (progress (3 / 20) w6) b = (r8, w8)"
            by (cases "get_chapters_list env (progress (3 / 20) w6) b")
          then have w8: "reported w8 = reported w @ [0, 1 / 20, 1 / 10, 3 / 20]"
            using w6 by (auto dest: get_chapters_list_reportedD)
          show ?thesis
          proof (cases r8)
            case (Inl e)
            then have "?G = (Inl e, w8)"
              using mk b g3 info g5 Inr g6 g8 by (simp add: get_ranobe_content_def Let_def)
            then show ?thesis using t4[of 0] w8 by (intro exI[of _ 0] exI[of _ 4]) auto
          next
            case stubs: (Inr chapters_list)
            let ?n = "length chapters_list"
            obtain w10 chs where g10: "chapters_iter env b out ?n 0
                (logging (Chapters_found ?n) w8, []) chapters_list = (w10, chs)"
              by (cases "chapters_iter env b out ?n 0 (logging (Chapters_found ?n) w8, []) chapters_list")
            from chapters_iter_reportedD[OF g10]
            have w10: "reported w10 = reported w @ [0, 1 / 20, 1 / 10, 3 / 20]
                 @ concat (map (\<lambda>k. tqdm_fractions env k ?n) [0..<?n + 1])"
              using w8 by (simp del: upt_Suc)
            obtain r w' where g11: "save_ranobe env w10 out b info cl chs = (r, w')"
              by (cases "save_ranobe env w10 out b info cl chs")
            have G: "?G = (r, w')"
              using mk b g3 info g5 Inr g6 g8 stubs g10 g11
              by (simp add: get_ranobe_content_def Let_def)
            from save_ranobe_reportedD[OF g11]
            have w': "reported w' = reported w10 @ (case r of Inr p \<Rightarrow> [19 / 20, 1] | Inl e \<Rightarrow> [19 / 20])" .
            show ?thesis
            proof (cases r)
              case (Inl e)
              with w' w10 have "reported w' = reported w @ butlast (full_run env ?n)"
                by (simp add: full_run_def butlast_append del: upt_Suc)
              then have "reported w' = reported w @ take (length (full_run env ?n) - 1) (full_run env ?n)"
                by (simp only: butlast_conv_take)
              with G Inl l[of ?n] show ?thesis
                by (intro exI[of _ ?n] exI[of _ "length (full_run env ?n) - 1"]) auto
            next
              case (Inr p)
              with w' w10 have "reported w' = reported w @ take (length (full_run env ?n)) (full_run env ?n)"
                by (simp add: full_run_def del: upt_Suc)
              with G Inr l[of ?n] show ?thesis
                by (intro exI[of _ ?n] exI[of _ "length (full_run env ?n)"]) auto
            qed
          qed
        qed
      qed
    qed
  qed
qed

lemma full_run_bounds:
  assumes "\<forall>n. \<forall>i\<le>n. \<forall>f\<in>set (tqdm_fractions env i n). 0 \<le> f \<and> f \<le> 1"
  shows "\<forall>f\<in>set (full_run env n). 0 \<le> f \<and> f \<le> 1"
proof -
  have "\<forall>f\<in>set (tqdm_fractions env k n). 0 \<le> f \<and> f \<le> 1" if "k \<in> set [0..<n + 1]" for k
    using assms that by (simp del: upt_Suc) (metis less_Suc_eq_le)
  then show ?thesis by (auto simp: full_run_def simp del: upt_Suc)
qed

lemma run_pipeline_reported:
  "\<exists>n k j. reported (snd (run_pipeline env w u out))
        = reported w @ [0, 1 / 10] @ take k (full_run env n) @ take j [4 / 5, 1]
      \<and> 1 \<le> k
      \<and> (\<forall>p. fst (run_pipeline env w u out) = Inr p \<longrightarrow> length (full_run env n) \<le> k \<and> 2 \<le> j)"
proof -
  let ?w2 = "progress (1 / 10) (progress 0 w)"
  obtain r w3 where g: "get_ranobe_content env ?w2 u out = (r, w3)"
    by (cases "get_ranobe_content env ?w2 u out")
  from get_ranobe_content_shape[of env ?w2 u out] g
  obtain n k where s: "reported w3 = reported w @ [0, 1 / 10] @ take k (full_run env n)"
    "1 \<le> k" "\<forall>p. r = Inr p \<longrightarrow> length (full_run env n) \<le> k"
    by auto
  show ?thesis
  proof (cases r)
    case (Inl e)
    then have "run_pipeline env w u out = (Inl e, w3)"
      using g by (simp add: run_pipeline_def Let_def)
    with s show ?thesis
      by (intro exI[of _ n] exI[of _ k] exI[of _ 0]) simp
  next
    case (Inr path)
    let ?w4 = "progress (4 / 5) w3"
    let ?A = "case EpubCreator env (files ?w4) path 85 of
                   Inl e \<Rightarrow> (Inl e, ?w4)
                 | Inr creator \<Rightarrow>
                     (case create_epub env (files ?w4) creator of
                        Inl e \<Rightarrow> (Inl e, ?w4)
                      | Inr (epub_path, st) \<Rightarrow> (Inr epub_path, progress 1 ?w4))"
    have rp: "run_pipeline env w u out = ?A"
      using g Inr by (simp add: run_pipeline_def Let_def)
    have "(\<exists>e. ?A = (Inl e, ?w4)) \<or> (\<exists>p. ?A = (Inr p, progress 1 ?w4))"
      by (auto split: sum.splits prod.splits)
    then show ?thesis
    proof
      assume "\<exists>e. ?A = (Inl e, ?w4)"
      then obtain e where "run_pipeline env w u out = (Inl e, ?w4)" using rp by auto
      with s show ?thesis
        by (intro exI[of _ n] exI[of _ k] exI[of _ 1]) simp
    next
      assume "\<exists>p. ?A = (Inr p, progress 1 ?w4)"
      then obtain p where "run_pipeline env w u out = (Inr p, progress 1 ?w4)" using rp by auto
      with s Inr show ?thesis
        by (intro exI[of _ n] exI[of _ k] exI[of _ 2]) simp
    qed
  qed
qed



lemma get_ranobe_content_ok:
  "get_ranobe_content env_ok (progress (1 / 10) (progress 0 world0)) ''https://ranobelib.me/ru/book/1--book'' ''out''
     = (Inr ''out/ranobe.json'',
        \<lparr>clock = 3,
         trace = [Request ''https://api2.mangalib.me/api/manga/1--book?fields[]=summary'',
                  Request ''https://api2.mangalib.me/api/manga/1--book'',
                  Request ''https://api2.mangalib.me/api/manga/1--book/chapters''],
         files = [''out/ranobe.json'' \<mapsto> ''saved''],
         logged = [Chapters_found 0, Saved ''out/ranobe.json''],
         reported = [0, 1 / 10, 0, 1 / 20, 1 / 10, 3 / 20, 1, 19 / 20, 1]\<rparr>)"
  by (simp add: get_ranobe_content_def extract_book_id_def patterns_def env_ok_def env0_def
      world0_def progress_def Let_def get_book_info_def get_cover_url_def get_chapters_list_def
      http_get_def fetch_cover_def logging_def report_def save_ranobe_def saved_book_def
      path_join_def)

lemma create_epub_ok:
  "\<exists>st. create_epub env_ok [''out/ranobe.json'' \<mapsto> ''saved'']
          (new_creator ''out/ranobe.json'' 85 saved_book) = Inr (''out/Book.epub'', st)"
  by (simp add: create_epub_def new_creator_def saved_book_def add_cover_def add_item_def
      volumes_map_def sorted_vols_def env_ok_def env0_def Let_def path_join_def warn_def
      parent_def rfind_def upt_rec[of _ "numeral _"] numeral_eq_Suc)


lemma run_pipeline_ok:
  "fst (run_pipeline env_ok world0 ''https://ranobelib.me/ru/book/1--book'' ''out'') = Inr ''out/Book.epub''
   \<and> reported (snd (run_pipeline env_ok world0 ''https://ranobelib.me/ru/book/1--book'' ''out''))
       = [0, 1 / 10, 0, 1 / 20, 1 / 10, 3 / 20, 1, 19 / 20, 1, 4 / 5, 1]"
proof -
  obtain st where c: "create_epub env_ok [''out/ranobe.json'' \<mapsto> ''saved'']
          (new_creator ''out/ranobe.json'' 85 saved_book) = Inr (''out/Book.epub'', st)"
    using create_epub_ok by blast
  have e: "EpubCreator env_ok [''out/ranobe.json'' \<mapsto> ''saved''] ''out/ranobe.json'' 85
           = Inr (new_creator ''out/ranobe.json'' 85 saved_book)"
    by (simp add: EpubCreator_def env_ok_def)
  show ?thesis
    by (simp add: run_pipeline_def Let_def get_ranobe_content_ok) (simp add: progress_def c e)
qed



end
